theory Spec2Isabelle
  imports Main "HOL-Library.Word" "HOL-Library.Signed_Division" "HOL-Library.AList"
begin

unbundle bit_operations_syntax

section \<open>Host data: machine integers, floats as bit patterns, strings as bytes\<close>

text \<open>
  Go's \<open>int\<close> is a 64-bit two's-complement word; arithmetic wraps.  A \<open>float64\<close> is
  carried as its IEEE-754 bit pattern.  Comparison, negation and the conversion from
  \<open>int\<close> are written out on the bit pattern; the rounding arithmetic, the conversion to
  \<open>int\<close> and the \<open>%g\<close> formatting are primitives of the host and are taken as a
  parameter (\<open>host\<close>).  A Go \<open>string\<close> is a sequence of bytes, here a \<open>char list\<close>.
\<close>

type_synonym go_int = "64 word"
type_synonym float64 = "64 word"
type_synonym rune = nat

record host =
  float_add :: "float64 \<Rightarrow> float64 \<Rightarrow> float64"
  float_sub :: "float64 \<Rightarrow> float64 \<Rightarrow> float64"
  float_mul :: "float64 \<Rightarrow> float64 \<Rightarrow> float64"
  float_div :: "float64 \<Rightarrow> float64 \<Rightarrow> float64"
  float_to_int :: "float64 \<Rightarrow> go_int"
  float_fmt_g :: "float64 \<Rightarrow> string"

definition go_div :: "go_int \<Rightarrow> go_int \<Rightarrow> go_int" where
  "go_div a b = word_of_int (sint a sdiv sint b)"

definition go_mod :: "go_int \<Rightarrow> go_int \<Rightarrow> go_int" where
  "go_mod a b = word_of_int (sint a smod sint b)"

definition float_mag :: "float64 \<Rightarrow> nat" where
  "float_mag x = unat x mod 2 ^ 63"

definition float_is_nan :: "float64 \<Rightarrow> bool" where
  "float_is_nan x = (float_mag x > 0x7FF0000000000000)"

definition float_key :: "float64 \<Rightarrow> int" where
  "float_key x = (if bit x 63 then - int (float_mag x) else int (float_mag x))"

definition float_eq :: "float64 \<Rightarrow> float64 \<Rightarrow> bool" where
  "float_eq a b = (\<not> float_is_nan a \<and> \<not> float_is_nan b \<and> float_key a = float_key b)"

definition float_lt :: "float64 \<Rightarrow> float64 \<Rightarrow> bool" where
  "float_lt a b = (\<not> float_is_nan a \<and> \<not> float_is_nan b \<and> float_key a < float_key b)"

definition float_le :: "float64 \<Rightarrow> float64 \<Rightarrow> bool" where
  "float_le a b = (\<not> float_is_nan a \<and> \<not> float_is_nan b \<and> float_key a \<le> float_key b)"

definition float_neg :: "float64 \<Rightarrow> float64" where
  "float_neg x = x XOR 0x8000000000000000"

fun bitlen :: "nat \<Rightarrow> nat" where
  "bitlen n = (if n = 0 then 0 else Suc (bitlen (n div 2)))"

declare bitlen.simps [simp del]

text \<open>\<open>float64(i)\<close>: the nearest double, ties to even.\<close>

definition float_of_int :: "go_int \<Rightarrow> float64" where
  "float_of_int a =
     (let i = sint a; m = nat \<bar>i\<bar>; l = bitlen m
      in if m = 0 then 0
         else let q = (if l \<le> 53 then m * 2 ^ (53 - l) else m div 2 ^ (l - 53));
                  r = (if l \<le> 53 then 0 else m mod 2 ^ (l - 53));
                  half = (if l \<le> 53 then 1 else 2 ^ (l - 54));
                  q' = (if r > half \<or> (r = half \<and> odd q) then q + 1 else q);
                  e = (if q' = 2 ^ 53 then l else l - 1);
                  mant = (if q' = 2 ^ 53 then 0 else q' - 2 ^ 52)
              in word_of_nat ((if i < 0 then 2 ^ 63 else 0) + (e + 1023) * 2 ^ 52 + mant))"

text \<open>\<open>strconv.Itoa\<close>.\<close>

fun digits10 :: "nat \<Rightarrow> string" where
  "digits10 n = (if n < 10 then [''0123456789'' ! n]
                 else digits10 (n div 10) @ [''0123456789'' ! (n mod 10)])"

declare digits10.simps [simp del]

definition Itoa :: "int \<Rightarrow> string" where
  "Itoa i = (if i < 0 then CHR ''-'' # digits10 (nat (- i)) else digits10 (nat i))"

text \<open>UTF-8 encoding of a code point (\<open>string(r)\<close>); an invalid code point becomes U+FFFD.\<close>

definition utf8_encode :: "rune \<Rightarrow> string" where
  "utf8_encode r =
     (if r < 0x80 then [char_of r]
      else if r < 0x800 then [char_of (0xC0 + r div 64), char_of (0x80 + r mod 64)]
      else if (0xD800 \<le> r \<and> r \<le> 0xDFFF) \<or> r > 0x10FFFF then [char_of (0xEF::nat), char_of (0xBF::nat), char_of (0xBD::nat)]
      else if r < 0x10000 then
        [char_of (0xE0 + r div 4096), char_of (0x80 + (r div 64) mod 64), char_of (0x80 + r mod 64)]
      else [char_of (0xF0 + r div 262144), char_of (0x80 + (r div 4096) mod 64),
            char_of (0x80 + (r div 64) mod 64), char_of (0x80 + r mod 64)])"

text \<open>
  One step of \<open>for _, char := range s\<close>: the code point at the front of the byte string
  and the number of bytes it takes.  A byte that does not start a well-formed sequence
  is read as U+FFFD, width 1.
\<close>

definition cont_byte :: "nat \<Rightarrow> bool" where
  "cont_byte b = (0x80 \<le> b \<and> b \<le> 0xBF)"

fun decode_rune :: "nat list \<Rightarrow> rune \<times> nat" where
  "decode_rune [] = (0xFFFD, 0)"
| "decode_rune (b0 # bs) =
     (if b0 < 0x80 then (b0, 1)
      else if 0xC2 \<le> b0 \<and> b0 \<le> 0xDF then
        (case bs of b1 # _ \<Rightarrow> if cont_byte b1 then ((b0 - 0xC0) * 64 + (b1 - 0x80), 2) else (0xFFFD, 1)
         | _ \<Rightarrow> (0xFFFD, 1))
      else if 0xE0 \<le> b0 \<and> b0 \<le> 0xEF then
        (case bs of b1 # b2 # _ \<Rightarrow>
           if (if b0 = 0xE0 then 0xA0 else 0x80) \<le> b1 \<and> b1 \<le> (if b0 = 0xED then 0x9F else 0xBF) \<and> cont_byte b2
           then ((b0 - 0xE0) * 4096 + (b1 - 0x80) * 64 + (b2 - 0x80), 3) else (0xFFFD, 1)
         | _ \<Rightarrow> (0xFFFD, 1))
      else if 0xF0 \<le> b0 \<and> b0 \<le> 0xF4 then
        (case bs of b1 # b2 # b3 # _ \<Rightarrow>
           if (if b0 = 0xF0 then 0x90 else 0x80) \<le> b1 \<and> b1 \<le> (if b0 = 0xF4 then 0x8F else 0xBF)
              \<and> cont_byte b2 \<and> cont_byte b3
           then ((b0 - 0xF0) * 262144 + (b1 - 0x80) * 4096 + (b2 - 0x80) * 64 + (b3 - 0x80), 4)
           else (0xFFFD, 1)
         | _ \<Rightarrow> (0xFFFD, 1))
      else (0xFFFD, 1))"

function range_string :: "nat list \<Rightarrow> rune list" where
  "range_string bs =
     (if bs = [] then []
      else fst (decode_rune bs) # range_string (drop (snd (decode_rune bs)) bs))"
  by pat_completeness auto

lemma decode_rune_width: "bs \<noteq> [] \<Longrightarrow> 0 < snd (decode_rune bs)"
  by (cases bs) (auto split: list.splits)

termination range_string
  by (relation "measure length") (auto simp: decode_rune_width)

declare range_string.simps [simp del]

definition string_runes :: "string \<Rightarrow> rune list" where
  "string_runes s = range_string (map of_char s)"

section \<open>Opcodes, instructions, code objects and runtime values\<close>

datatype OpCode =
    OpLoadConst | OpLoadName | OpStoreName | OpLoadGlobal | OpStoreGlobal | OpLoadFast | OpStoreFast
  | OpBinaryAdd | OpBinarySub | OpBinaryMul | OpBinaryDiv | OpBinaryMod
  | OpUnaryPos | OpUnaryNeg | OpUnaryNot
  | OpCompareEq | OpCompareNe | OpCompareLt | OpCompareLe | OpCompareGt | OpCompareGe | OpCompareIn
  | OpJumpForward | OpJumpIfFalse | OpJumpIfTrue | OpJumpAbsolute | OpPopJumpIfFalse | OpPopJumpIfTrue
  | OpBuildList | OpBuildDict | OpBuildTuple
  | OpBinarySubscr | OpStoreSubscr
  | OpCallFunction | OpReturnValue
  | OpPrintExpr | OpPrintNewline
  | OpPopTop | OpRotTwo | OpRotThree | OpDupTop
  | OpSetupLoop | OpBreakLoop | OpContinueLoop
  | OpGetIter | OpForIter
  | OpNop
  | OpUnknown nat

record Instruction =
  Op :: OpCode
  Arg :: int

text \<open>
  Lists and dicts are Go pointers to mutable objects.  An address is either in the store
  that exists before a VM is created (the objects a code object's constants point to) or
  in the heap of the running VM.
\<close>

datatype addr = CAddr nat | VAddr nat

text \<open>The native function behind a built-in value; \<open>BuiltinNil\<close> is a nil \<open>Func\<close> field.\<close>

datatype Builtin = BuiltinLen | BuiltinRange | BuiltinType | BuiltinStr | BuiltinNil

text \<open>
  \<open>GoNil\<close> is the nil interface value (an empty stack slot read by \<open>peek\<close>).
  \<open>PyFunction p code name\<close>: \<open>p\<close> stands for the pointer \<open>Code\<close>, which is what
  \<open>Equal\<close> compares; the \<open>Globals\<close> field is never read and is left out.
\<close>

datatype "value" =
    GoNil
  | PyInt go_int
  | PyFloat float64
  | PyString string
  | PyBool bool
  | PyNone
  | PyList addr
  | PyDict addr
  | PyFunction nat CodeObject string
  | PyBuiltin string Builtin
and CodeObject =
  CodeObject (Instructions: "Instruction list") (Consts: "value list") (Names: "string list")
    (Varnames: "string list") (Argcount: int) (Filename: string) (CoName: string) (Firstlineno: int)

text \<open>A list object holds \<open>Elements\<close>; a dict object holds \<open>Pairs\<close> (a map, kept as an
  association list with distinct keys) and \<open>Keys\<close>.\<close>

datatype hobj = ListObj "value list" | DictObj "(string \<times> value) list" "string list"

datatype vm_error = RuntimeError string | Panic string | OutOfFuel

record machine =
  globals :: "string \<Rightarrow> value option"
  stdout :: string
  vheap :: "hobj list"
  cstore :: "hobj list"

definition nil_deref :: vm_error where
  "nil_deref = Panic ''invalid memory address or nil pointer dereference''"

definition bad_addr :: vm_error where
  "bad_addr = Panic ''address does not hold an object of this type''"

definition deref :: "machine \<Rightarrow> addr \<Rightarrow> hobj option" where
  "deref m a = (case a of
      CAddr i \<Rightarrow> if i < length (cstore m) then Some (cstore m ! i) else None
    | VAddr i \<Rightarrow> if i < length (vheap m) then Some (vheap m ! i) else None)"

definition store_obj :: "machine \<Rightarrow> addr \<Rightarrow> hobj \<Rightarrow> machine" where
  "store_obj m a ob = (case a of
      CAddr i \<Rightarrow> m\<lparr>cstore := (cstore m)[i := ob]\<rparr>
    | VAddr i \<Rightarrow> m\<lparr>vheap := (vheap m)[i := ob]\<rparr>)"

definition alloc :: "machine \<Rightarrow> hobj \<Rightarrow> addr \<times> machine" where
  "alloc m ob = (VAddr (length (vheap m)), m\<lparr>vheap := vheap m @ [ob]\<rparr>)"

fun bind_err :: "'e + 'a \<Rightarrow> ('a \<Rightarrow> 'e + 'b) \<Rightarrow> 'e + 'b" where
  "bind_err (Inl e) f = Inl e"
| "bind_err (Inr x) f = f x"

lemma bind_err_cong [fundef_cong]:
  "m = m' \<Longrightarrow> (\<And>x. m' = Inr x \<Longrightarrow> f x = f' x) \<Longrightarrow> bind_err m f = bind_err m' f'"
  by (cases m') auto

section \<open>The capabilities of a value: Type, String, IsTruthy, Equal\<close>

fun obj_Type :: "value \<Rightarrow> vm_error + string" where
  "obj_Type GoNil = Inl nil_deref"
| "obj_Type (PyInt _) = Inr ''int''"
| "obj_Type (PyFloat _) = Inr ''float''"
| "obj_Type (PyString _) = Inr ''str''"
| "obj_Type (PyBool _) = Inr ''bool''"
| "obj_Type PyNone = Inr ''NoneType''"
| "obj_Type (PyList _) = Inr ''list''"
| "obj_Type (PyDict _) = Inr ''dict''"
| "obj_Type (PyFunction _ _ _) = Inr ''function''"
| "obj_Type (PyBuiltin _ _) = Inr ''builtin_function_or_method''"

fun Join :: "string list \<Rightarrow> string \<Rightarrow> string" where
  "Join [] sep = []"
| "Join [x] sep = x"
| "Join (x # y # ys) sep = x @ sep @ Join (y # ys) sep"

text \<open>
  \<open>String()\<close> and \<open>Equal\<close> recurse through the elements of lists and dicts; on a
  cyclic object the Go recursion does not end.  The first argument bounds the nesting
  depth; \<open>OutOfFuel\<close> is the answer when it is used up.
\<close>

fun obj_String :: "host \<Rightarrow> nat \<Rightarrow> machine \<Rightarrow> value \<Rightarrow> vm_error + string"
  and obj_Strings :: "host \<Rightarrow> nat \<Rightarrow> machine \<Rightarrow> value list \<Rightarrow> vm_error + string list"
  and dict_Strings :: "host \<Rightarrow> nat \<Rightarrow> machine \<Rightarrow> (string \<times> value) list \<Rightarrow> string list \<Rightarrow> vm_error + string list"
where
  "obj_String h n m GoNil = Inl nil_deref"
| "obj_String h n m (PyInt i) = Inr (Itoa (sint i))"
| "obj_String h n m (PyFloat f) = Inr (float_fmt_g h f)"
| "obj_String h n m (PyString s) = Inr s"
| "obj_String h n m (PyBool b) = Inr (if b then ''True'' else ''False'')"
| "obj_String h n m PyNone = Inr ''None''"
| "obj_String h n m (PyFunction p c name) = Inr (''<function '' @ name @ ''>'')"
| "obj_String h n m (PyBuiltin name f) = Inr (''<built-in function '' @ name @ ''>'')"
| "obj_String h 0 m (PyList a) = Inl OutOfFuel"
| "obj_String h (Suc n) m (PyList a) =
     (case deref m a of
        Some (ListObj es) \<Rightarrow>
          (case obj_Strings h n m es of Inl e \<Rightarrow> Inl e
           | Inr ss \<Rightarrow> Inr (''['' @ Join ss '', '' @ '']''))
      | _ \<Rightarrow> Inl bad_addr)"
| "obj_String h 0 m (PyDict a) = Inl OutOfFuel"
| "obj_String h (Suc n) m (PyDict a) =
     (case deref m a of
        Some (DictObj pairs keys) \<Rightarrow>
          (case dict_Strings h n m pairs keys of Inl e \<Rightarrow> Inl e
           | Inr ss \<Rightarrow> Inr (''{'' @ Join ss '', '' @ ''}''))
      | _ \<Rightarrow> Inl bad_addr)"
| "obj_Strings h n m [] = Inr []"
| "obj_Strings h n m (v # vs) =
     (case obj_String h n m v of Inl e \<Rightarrow> Inl e
      | Inr s \<Rightarrow> (case obj_Strings h n m vs of Inl e \<Rightarrow> Inl e | Inr ss \<Rightarrow> Inr (s # ss)))"
| "dict_Strings h n m pairs [] = Inr []"
| "dict_Strings h n m pairs (k # ks) =
     (case obj_String h n m (case map_of pairs k of None \<Rightarrow> GoNil | Some v \<Rightarrow> v) of Inl e \<Rightarrow> Inl e
      | Inr s \<Rightarrow> (case dict_Strings h n m pairs ks of Inl e \<Rightarrow> Inl e
                  | Inr ss \<Rightarrow> Inr ((k @ '': '' @ s) # ss)))"

fun obj_IsTruthy :: "machine \<Rightarrow> value \<Rightarrow> vm_error + bool" where
  "obj_IsTruthy m GoNil = Inl nil_deref"
| "obj_IsTruthy m (PyInt i) = Inr (i \<noteq> 0)"
| "obj_IsTruthy m (PyFloat f) = Inr (\<not> float_eq f 0)"
| "obj_IsTruthy m (PyString s) = Inr (length s > 0)"
| "obj_IsTruthy m (PyBool b) = Inr b"
| "obj_IsTruthy m PyNone = Inr False"
| "obj_IsTruthy m (PyList a) =
     (case deref m a of Some (ListObj es) \<Rightarrow> Inr (length es > 0) | _ \<Rightarrow> Inl bad_addr)"
| "obj_IsTruthy m (PyDict a) =
     (case deref m a of Some (DictObj pairs keys) \<Rightarrow> Inr (length pairs > 0) | _ \<Rightarrow> Inl bad_addr)"
| "obj_IsTruthy m (PyFunction _ _ _) = Inr True"
| "obj_IsTruthy m (PyBuiltin _ _) = Inr True"

text \<open>
  \<open>Equal\<close>: every variant first asserts that the other value has its own type.  A dict is
  walked in the order of its association list (Go leaves the order of a map open; the
  answer is the same in every order when no comparison panics).
\<close>

fun obj_Equal :: "nat \<Rightarrow> machine \<Rightarrow> value \<Rightarrow> value \<Rightarrow> vm_error + bool"
  and list_Equal :: "nat \<Rightarrow> machine \<Rightarrow> value list \<Rightarrow> value list \<Rightarrow> vm_error + bool"
  and dict_Equal :: "nat \<Rightarrow> machine \<Rightarrow> (string \<times> value) list \<Rightarrow> (string \<times> value) list \<Rightarrow> vm_error + bool"
where
  "obj_Equal n m GoNil y = Inl nil_deref"
| "obj_Equal n m (PyInt a) y = (case y of PyInt b \<Rightarrow> Inr (a = b) | _ \<Rightarrow> Inr False)"
| "obj_Equal n m (PyFloat a) y = (case y of PyFloat b \<Rightarrow> Inr (float_eq a b) | _ \<Rightarrow> Inr False)"
| "obj_Equal n m (PyString a) y = (case y of PyString b \<Rightarrow> Inr (a = b) | _ \<Rightarrow> Inr False)"
| "obj_Equal n m (PyBool a) y = (case y of PyBool b \<Rightarrow> Inr (a = b) | _ \<Rightarrow> Inr False)"
| "obj_Equal n m PyNone y = (case y of PyNone \<Rightarrow> Inr True | _ \<Rightarrow> Inr False)"
| "obj_Equal n m (PyFunction p c name) y = (case y of PyFunction q _ _ \<Rightarrow> Inr (p = q) | _ \<Rightarrow> Inr False)"
| "obj_Equal n m (PyBuiltin name f) y = (case y of PyBuiltin name' _ \<Rightarrow> Inr (name = name') | _ \<Rightarrow> Inr False)"
| "obj_Equal 0 m (PyList a) y = (case y of PyList b \<Rightarrow> Inl OutOfFuel | _ \<Rightarrow> Inr False)"
| "obj_Equal (Suc n) m (PyList a) y =
     (case y of
        PyList b \<Rightarrow>
          (case (deref m a, deref m b) of
             (Some (ListObj es), Some (ListObj os)) \<Rightarrow>
               if length es \<noteq> length os then Inr False else list_Equal n m es os
           | _ \<Rightarrow> Inl bad_addr)
      | _ \<Rightarrow> Inr False)"
| "obj_Equal 0 m (PyDict a) y = (case y of PyDict b \<Rightarrow> Inl OutOfFuel | _ \<Rightarrow> Inr False)"
| "obj_Equal (Suc n) m (PyDict a) y =
     (case y of
        PyDict b \<Rightarrow>
          (case (deref m a, deref m b) of
             (Some (DictObj ps ks), Some (DictObj os ks')) \<Rightarrow>
               if length ps \<noteq> length os then Inr False else dict_Equal n m ps os
           | _ \<Rightarrow> Inl bad_addr)
      | _ \<Rightarrow> Inr False)"
| "list_Equal n m [] os = Inr True"
| "list_Equal n m (e # es) os =
     (case os of
        [] \<Rightarrow> Inl (Panic ''index out of range'')
      | ov # os' \<Rightarrow>
          (case obj_Equal n m e ov of Inl err \<Rightarrow> Inl err
           | Inr b \<Rightarrow> if \<not> b then Inr False else list_Equal n m es os'))"
| "dict_Equal n m [] os = Inr True"
| "dict_Equal n m ((k, v) # ps) os =
     (case map_of os k of
        None \<Rightarrow> Inr False
      | Some ov \<Rightarrow>
          (case obj_Equal n m v ov of Inl err \<Rightarrow> Inl err
           | Inr b \<Rightarrow> if \<not> b then Inr False else dict_Equal n m ps os))"

section \<open>Conversions and operators of the virtual machine\<close>

definition quoted :: "string \<Rightarrow> string" where
  "quoted s = CHR 0x27 # s @ [CHR 0x27]"

fun toGoInt :: "host \<Rightarrow> value \<Rightarrow> vm_error + go_int" where
  "toGoInt h (PyInt i) = Inr i"
| "toGoInt h (PyFloat f) = Inr (float_to_int h f)"
| "toGoInt h (PyBool b) = Inr (if b then 1 else 0)"
| "toGoInt h v = bind_err (obj_Type v) (\<lambda>t. Inl (RuntimeError (''cannot convert '' @ t @ '' to int'')))"

fun toGoString :: "host \<Rightarrow> nat \<Rightarrow> machine \<Rightarrow> value \<Rightarrow> vm_error + string" where
  "toGoString h n m (PyString s) = Inr s"
| "toGoString h n m v = obj_String h n m v"

definition unsupported_operand :: "string \<Rightarrow> value \<Rightarrow> value \<Rightarrow> vm_error + value" where
  "unsupported_operand op left right =
     bind_err (obj_Type left) (\<lambda>lt. bind_err (obj_Type right) (\<lambda>rt.
       Inl (RuntimeError (''unsupported operand type(s) for '' @ op @ '': '' @ quoted lt @ '' and '' @ quoted rt))))"

definition division_by_zero :: "vm_error + value" where
  "division_by_zero = Inl (RuntimeError ''division by zero'')"

text \<open>
  \<open>binaryOp\<close>: a matching case returns; every other combination falls through to the
  final "unsupported operand" error.
\<close>

definition binaryOp :: "host \<Rightarrow> value \<Rightarrow> value \<Rightarrow> string \<Rightarrow> vm_error + value" where
  "binaryOp h left right op =
     (case
        (if op = ''+'' then
           (case left of
              PyInt l \<Rightarrow> (case right of
                  PyInt r \<Rightarrow> Some (Inr (PyInt (l + r)))
                | PyFloat r \<Rightarrow> Some (Inr (PyFloat (float_add h (float_of_int l) r)))
                | _ \<Rightarrow> None)
            | PyFloat l \<Rightarrow> (case right of
                  PyInt r \<Rightarrow> Some (Inr (PyFloat (float_add h l (float_of_int r))))
                | PyFloat r \<Rightarrow> Some (Inr (PyFloat (float_add h l r)))
                | _ \<Rightarrow> None)
            | PyString l \<Rightarrow> (case right of
                  PyString r \<Rightarrow> Some (Inr (PyString (l @ r)))
                | _ \<Rightarrow> None)
            | _ \<Rightarrow> None)
         else if op = ''-'' then
           (case left of
              PyInt l \<Rightarrow> (case right of
                  PyInt r \<Rightarrow> Some (Inr (PyInt (l - r)))
                | PyFloat r \<Rightarrow> Some (Inr (PyFloat (float_sub h (float_of_int l) r)))
                | _ \<Rightarrow> None)
            | PyFloat l \<Rightarrow> (case right of
                  PyInt r \<Rightarrow> Some (Inr (PyFloat (float_sub h l (float_of_int r))))
                | PyFloat r \<Rightarrow> Some (Inr (PyFloat (float_sub h l r)))
                | _ \<Rightarrow> None)
            | _ \<Rightarrow> None)
         else if op = ''*'' then
           (case left of
              PyInt l \<Rightarrow> (case right of
                  PyInt r \<Rightarrow> Some (Inr (PyInt (l * r)))
                | PyFloat r \<Rightarrow> Some (Inr (PyFloat (float_mul h (float_of_int l) r)))
                | _ \<Rightarrow> None)
            | PyFloat l \<Rightarrow> (case right of
                  PyInt r \<Rightarrow> Some (Inr (PyFloat (float_mul h l (float_of_int r))))
                | PyFloat r \<Rightarrow> Some (Inr (PyFloat (float_mul h l r)))
                | _ \<Rightarrow> None)
            | _ \<Rightarrow> None)
         else if op = ''/'' then
           (case left of
              PyInt l \<Rightarrow> (case right of
                  PyInt r \<Rightarrow> Some (if r = 0 then division_by_zero else Inr (PyInt (go_div l r)))
                | PyFloat r \<Rightarrow> Some (if float_eq r 0 then division_by_zero
                                     else Inr (PyFloat (float_div h (float_of_int l) r)))
                | _ \<Rightarrow> None)
            | PyFloat l \<Rightarrow> (case right of
                  PyInt r \<Rightarrow> Some (if r = 0 then division_by_zero
                                   else Inr (PyFloat (float_div h l (float_of_int r))))
                | PyFloat r \<Rightarrow> Some (if float_eq r 0 then division_by_zero
                                     else Inr (PyFloat (float_div h l r)))
                | _ \<Rightarrow> None)
            | _ \<Rightarrow> None)
         else if op = ''%'' then
           (case left of
              PyInt l \<Rightarrow> (case right of
                  PyInt r \<Rightarrow> Some (if r = 0 then Inl (RuntimeError ''integer division or modulo by zero'')
                                   else Inr (PyInt (go_mod l r)))
                | _ \<Rightarrow> None)
            | _ \<Rightarrow> None)
         else None)
      of Some res \<Rightarrow> res
       | None \<Rightarrow> unsupported_operand op left right)"

definition unaryOp :: "value \<Rightarrow> string \<Rightarrow> vm_error + value" where
  "unaryOp operand op =
     (if op = ''+'' then
        (case operand of
           PyInt i \<Rightarrow> Inr (PyInt i)
         | PyFloat f \<Rightarrow> Inr (PyFloat f)
         | _ \<Rightarrow> bind_err (obj_Type operand) (\<lambda>t. Inl (RuntimeError (''bad operand type for unary +: '' @ quoted t))))
      else if op = ''-'' then
        (case operand of
           PyInt i \<Rightarrow> Inr (PyInt (- i))
         | PyFloat f \<Rightarrow> Inr (PyFloat (float_neg f))
         | _ \<Rightarrow> bind_err (obj_Type operand) (\<lambda>t. Inl (RuntimeError (''bad operand type for unary -: '' @ quoted t))))
      else Inl (RuntimeError (''unknown unary operator: '' @ op)))"

text \<open>Go compares strings byte by byte.\<close>

definition str_lt :: "string \<Rightarrow> string \<Rightarrow> bool" where
  "str_lt a b = lexordp (\<lambda>x y. (of_char x :: nat) < of_char y) a b"

definition compare_with :: "string \<Rightarrow> bool \<Rightarrow> bool \<Rightarrow> bool \<Rightarrow> bool \<Rightarrow> (vm_error + value) option" where
  "compare_with op lt le gt ge =
     (if op = ''<'' then Some (Inr (PyBool lt))
      else if op = ''<='' then Some (Inr (PyBool le))
      else if op = ''>'' then Some (Inr (PyBool gt))
      else if op = ''>='' then Some (Inr (PyBool ge))
      else None)"

definition compareOp :: "value \<Rightarrow> value \<Rightarrow> string \<Rightarrow> vm_error + value" where
  "compareOp left right op =
     (case
        (case left of
           PyInt l \<Rightarrow> (case right of
               PyInt r \<Rightarrow> compare_with op (sint l < sint r) (sint l \<le> sint r) (sint l > sint r) (sint l \<ge> sint r)
             | PyFloat r \<Rightarrow> (let lf = float_of_int l in
                 compare_with op (float_lt lf r) (float_le lf r) (float_lt r lf) (float_le r lf))
             | _ \<Rightarrow> None)
         | PyFloat l \<Rightarrow> (case right of
               PyInt r \<Rightarrow> (let rf = float_of_int r in
                 compare_with op (float_lt l rf) (float_le l rf) (float_lt rf l) (float_le rf l))
             | PyFloat r \<Rightarrow> compare_with op (float_lt l r) (float_le l r) (float_lt r l) (float_le r l)
             | _ \<Rightarrow> None)
         | PyString l \<Rightarrow> (case right of
               PyString r \<Rightarrow> compare_with op (str_lt l r) (\<not> str_lt r l) (str_lt r l) (\<not> str_lt l r)
             | _ \<Rightarrow> None)
         | _ \<Rightarrow> None)
      of Some res \<Rightarrow> res
       | None \<Rightarrow>
           bind_err (obj_Type left) (\<lambda>lt. bind_err (obj_Type right) (\<lambda>rt.
             Inl (RuntimeError (quoted op @ '' not supported between instances of '' @ quoted lt
                                @ '' and '' @ quoted rt)))))"

fun list_contains :: "nat \<Rightarrow> machine \<Rightarrow> value \<Rightarrow> value list \<Rightarrow> vm_error + bool" where
  "list_contains n m left [] = Inr False"
| "list_contains n m left (e # es) =
     (case obj_Equal n m left e of Inl err \<Rightarrow> Inl err
      | Inr b \<Rightarrow> if b then Inr True else list_contains n m left es)"

definition is_substring :: "string \<Rightarrow> string \<Rightarrow> bool" where
  "is_substring s c =
     (length s \<le> length c \<and> list_ex (\<lambda>i. take (length s) (drop i c) = s) [0 ..< Suc (length c - length s)])"

definition inOp :: "host \<Rightarrow> nat \<Rightarrow> machine \<Rightarrow> value \<Rightarrow> value \<Rightarrow> vm_error + value" where
  "inOp h n m left right =
     (case
        (case right of
           PyList a \<Rightarrow> Some (case deref m a of
               Some (ListObj es) \<Rightarrow> bind_err (list_contains n m left es) (\<lambda>b. Inr (PyBool b))
             | _ \<Rightarrow> Inl bad_addr)
         | PyDict a \<Rightarrow> Some (case deref m a of
               Some (DictObj pairs keys) \<Rightarrow>
                 bind_err (obj_String h n m left) (\<lambda>k. Inr (PyBool (map_of pairs k \<noteq> None)))
             | _ \<Rightarrow> Inl bad_addr)
         | PyString c \<Rightarrow> (case left of
               PyString s \<Rightarrow> Some (Inr (PyBool (is_substring s c)))
             | _ \<Rightarrow> None)
         | _ \<Rightarrow> None)
      of Some res \<Rightarrow> res
       | None \<Rightarrow> bind_err (obj_Type right) (\<lambda>rt.
           Inl (RuntimeError (''argument of type '' @ quoted rt @ '' is not iterable''))))"

text \<open>\<open>PyDict.Set\<close>: the key is the rendering of the key value.\<close>

definition dict_Set :: "(string \<times> value) list \<Rightarrow> string list \<Rightarrow> string \<Rightarrow> value \<Rightarrow> hobj" where
  "dict_Set pairs keys k v =
     DictObj (AList.update k v pairs) (if map_of pairs k = None then keys @ [k] else keys)"

definition subscript :: "host \<Rightarrow> nat \<Rightarrow> machine \<Rightarrow> value \<Rightarrow> value \<Rightarrow> vm_error + value" where
  "subscript h n m container index' =
     (case container of
        PyList a \<Rightarrow> (case deref m a of
            Some (ListObj es) \<Rightarrow>
              bind_err (toGoInt h index') (\<lambda>idx.
                if sint idx < 0 \<or> sint idx \<ge> int (length es) then Inl (RuntimeError ''list index out of range'')
                else Inr (es ! nat (sint idx)))
          | _ \<Rightarrow> Inl bad_addr)
      | PyDict a \<Rightarrow> (case deref m a of
            Some (DictObj pairs keys) \<Rightarrow>
              bind_err (obj_String h n m index') (\<lambda>k.
                case map_of pairs k of
                  None \<Rightarrow> Inl (RuntimeError (''KeyError: '' @ k))
                | Some v \<Rightarrow> Inr v)
          | _ \<Rightarrow> Inl bad_addr)
      | PyString s \<Rightarrow>
          bind_err (toGoInt h index') (\<lambda>idx.
            if sint idx < 0 \<or> sint idx \<ge> int (length s) then Inl (RuntimeError ''string index out of range'')
            else Inr (PyString (utf8_encode (of_char (s ! nat (sint idx))))))
      | _ \<Rightarrow> bind_err (obj_Type container) (\<lambda>t.
            Inl (RuntimeError (quoted t @ '' object is not subscriptable''))))"

definition storeSubscript :: "host \<Rightarrow> nat \<Rightarrow> machine \<Rightarrow> value \<Rightarrow> value \<Rightarrow> value \<Rightarrow> vm_error + machine" where
  "storeSubscript h n m container index' v =
     (case container of
        PyList a \<Rightarrow> (case deref m a of
            Some (ListObj es) \<Rightarrow>
              bind_err (toGoInt h index') (\<lambda>idx.
                if sint idx < 0 \<or> sint idx \<ge> int (length es) then Inl (RuntimeError ''list index out of range'')
                else Inr (store_obj m a (ListObj (es[nat (sint idx) := v]))))
          | _ \<Rightarrow> Inl bad_addr)
      | PyDict a \<Rightarrow> (case deref m a of
            Some (DictObj pairs keys) \<Rightarrow>
              bind_err (obj_String h n m index') (\<lambda>k. Inr (store_obj m a (dict_Set pairs keys k v)))
          | _ \<Rightarrow> Inl bad_addr)
      | _ \<Rightarrow> bind_err (obj_Type container) (\<lambda>t.
            Inl (RuntimeError (quoted t @ '' object does not support item assignment''))))"

section \<open>Built-in functions\<close>

fun range_up :: "nat \<Rightarrow> go_int \<Rightarrow> go_int \<Rightarrow> go_int \<Rightarrow> value list \<Rightarrow> vm_error + value list" where
  "range_up 0 i stop step acc = Inl OutOfFuel"
| "range_up (Suc n) i stop step acc =
     (if sint i < sint stop then range_up n (i + step) stop step (acc @ [PyInt i]) else Inr acc)"

fun range_down :: "nat \<Rightarrow> go_int \<Rightarrow> go_int \<Rightarrow> go_int \<Rightarrow> value list \<Rightarrow> vm_error + value list" where
  "range_down 0 i stop step acc = Inl OutOfFuel"
| "range_down (Suc n) i stop step acc =
     (if sint i > sint stop then range_down n (i + step) stop step (acc @ [PyInt i]) else Inr acc)"

definition range_elements :: "nat \<Rightarrow> go_int \<Rightarrow> go_int \<Rightarrow> go_int \<Rightarrow> vm_error + value list" where
  "range_elements n start stop step =
     (if sint step > 0 then range_up n start stop step [] else range_down n start stop step [])"

definition builtin_len :: "machine \<Rightarrow> value list \<Rightarrow> vm_error + value" where
  "builtin_len m args =
     (if length args \<noteq> 1 then
        Inl (RuntimeError (''len() takes exactly one argument ('' @ Itoa (int (length args)) @ '' given)''))
      else (case hd args of
          PyString s \<Rightarrow> Inr (PyInt (word_of_nat (length s)))
        | PyList a \<Rightarrow> (case deref m a of Some (ListObj es) \<Rightarrow> Inr (PyInt (word_of_nat (length es)))
                       | _ \<Rightarrow> Inl bad_addr)
        | PyDict a \<Rightarrow> (case deref m a of Some (DictObj pairs keys) \<Rightarrow> Inr (PyInt (word_of_nat (length pairs)))
                       | _ \<Rightarrow> Inl bad_addr)
        | v \<Rightarrow> bind_err (obj_Type v) (\<lambda>t.
            Inl (RuntimeError (''object of type '' @ quoted t @ '' has no len()'')))))"

definition builtin_range :: "host \<Rightarrow> nat \<Rightarrow> machine \<Rightarrow> value list \<Rightarrow> vm_error + (value \<times> machine)" where
  "builtin_range h n m args =
     (if length args < 1 \<or> length args > 3 then Inl (RuntimeError ''range() takes 1 to 3 arguments'')
      else
        bind_err
          (if length args = 1 then
             bind_err (toGoInt h (args ! 0)) (\<lambda>stop. Inr (0, stop, 1))
           else if length args = 2 then
             bind_err (toGoInt h (args ! 0)) (\<lambda>start.
             bind_err (toGoInt h (args ! 1)) (\<lambda>stop. Inr (start, stop, 1)))
           else
             bind_err (toGoInt h (args ! 0)) (\<lambda>start.
             bind_err (toGoInt h (args ! 1)) (\<lambda>stop.
             bind_err (toGoInt h (args ! 2)) (\<lambda>step.
               if step = 0 then Inl (RuntimeError ''range() step argument must not be zero'')
               else Inr (start, stop, step)))))
          (\<lambda>(start, stop, step).
             bind_err (range_elements n start stop step) (\<lambda>elements.
               (case alloc m (ListObj elements) of (a, m') \<Rightarrow> Inr (PyList a, m')))))"

definition builtin_type :: "value list \<Rightarrow> vm_error + value" where
  "builtin_type args =
     (if length args \<noteq> 1 then Inl (RuntimeError ''type() takes exactly one argument'')
      else bind_err (obj_Type (hd args)) (\<lambda>t. Inr (PyString t)))"

definition builtin_str :: "host \<Rightarrow> nat \<Rightarrow> machine \<Rightarrow> value list \<Rightarrow> vm_error + value" where
  "builtin_str h n m args =
     (if length args \<noteq> 1 then Inl (RuntimeError ''str() takes exactly one argument'')
      else bind_err (toGoString h n m (hd args)) (\<lambda>s. Inr (PyString s)))"

fun call_builtin :: "host \<Rightarrow> nat \<Rightarrow> machine \<Rightarrow> Builtin \<Rightarrow> value list \<Rightarrow> vm_error + (value \<times> machine)" where
  "call_builtin h n m BuiltinLen args = bind_err (builtin_len m args) (\<lambda>v. Inr (v, m))"
| "call_builtin h n m BuiltinRange args = builtin_range h n m args"
| "call_builtin h n m BuiltinType args = bind_err (builtin_type args) (\<lambda>v. Inr (v, m))"
| "call_builtin h n m BuiltinStr args = bind_err (builtin_str h n m args) (\<lambda>v. Inr (v, m))"
| "call_builtin h n m BuiltinNil args = Inl nil_deref"

text \<open>The built-in table of \<open>NewVM\<close>.\<close>

definition builtins :: "string \<Rightarrow> value option" where
  "builtins name =
     (if name = ''len'' then Some (PyBuiltin ''len'' BuiltinLen)
      else if name = ''range'' then Some (PyBuiltin ''range'' BuiltinRange)
      else if name = ''type'' then Some (PyBuiltin ''type'' BuiltinType)
      else if name = ''str'' then Some (PyBuiltin ''str'' BuiltinStr)
      else None)"

section \<open>Frames and the dispatch loop\<close>

text \<open>
  A frame's value stack is the occupied part \<open>Stack[0..SP)\<close> of the Go array, top first.
  The array has 1000 slots, and so has the VM's array of frames.
\<close>

record Frame =
  Code :: CodeObject
  IP :: int
  Stack :: "value list"
  Locals :: "value list"

definition NewFrame :: "CodeObject \<Rightarrow> Frame" where
  "NewFrame code = \<lparr>Code = code, IP = 0, Stack = [], Locals = replicate (length (Varnames code)) PyNone\<rparr>"

definition index_panic :: vm_error where
  "index_panic = Panic ''index out of range''"

definition push :: "Frame \<Rightarrow> value \<Rightarrow> vm_error + Frame" where
  "push f obj = (if length (Stack f) \<ge> 1000 then Inl index_panic else Inr (f\<lparr>Stack := obj # Stack f\<rparr>))"

definition pop :: "Frame \<Rightarrow> vm_error + (value \<times> Frame)" where
  "pop f = (case Stack f of [] \<Rightarrow> Inl (Panic ''stack underflow'') | v # st \<Rightarrow> Inr (v, f\<lparr>Stack := st\<rparr>))"

definition peek :: "Frame \<Rightarrow> value" where
  "peek f = (case Stack f of [] \<Rightarrow> GoNil | v # st \<Rightarrow> v)"

definition index_of :: "'a list \<Rightarrow> int \<Rightarrow> vm_error + 'a" where
  "index_of xs i = (if i < 0 \<or> i \<ge> int (length xs) then Inl index_panic else Inr (xs ! nat i))"

text \<open>\<open>pop_n f k\<close> pops \<open>k\<close> values; the result lists them in stack order, deepest first.\<close>

fun pop_n :: "Frame \<Rightarrow> nat \<Rightarrow> value list \<Rightarrow> vm_error + (value list \<times> Frame)" where
  "pop_n f 0 acc = Inr (acc, f)"
| "pop_n f (Suc k) acc = bind_err (pop f) (\<lambda>(v, f'). pop_n f' k (v # acc))"

datatype outcome = Next "Frame list" machine | Returned "value" machine

definition continue :: "Frame \<Rightarrow> Frame list \<Rightarrow> machine \<Rightarrow> vm_error + outcome" where
  "continue f fs m = Inr (Next (f # fs) m)"

definition push_continue :: "Frame \<Rightarrow> value \<Rightarrow> Frame list \<Rightarrow> machine \<Rightarrow> vm_error + outcome" where
  "push_continue f v fs m = bind_err (push f v) (\<lambda>f'. continue f' fs m)"

definition exec_binary :: "host \<Rightarrow> string \<Rightarrow> Frame \<Rightarrow> Frame list \<Rightarrow> machine \<Rightarrow> vm_error + outcome" where
  "exec_binary h op f fs m =
     bind_err (pop f) (\<lambda>(right, f1). bind_err (pop f1) (\<lambda>(left, f2).
       bind_err (binaryOp h left right op) (\<lambda>result. push_continue f2 result fs m)))"

definition exec_unary :: "string \<Rightarrow> Frame \<Rightarrow> Frame list \<Rightarrow> machine \<Rightarrow> vm_error + outcome" where
  "exec_unary op f fs m =
     bind_err (pop f) (\<lambda>(operand, f1).
       bind_err (unaryOp operand op) (\<lambda>result. push_continue f1 result fs m))"

definition exec_compare :: "string \<Rightarrow> Frame \<Rightarrow> Frame list \<Rightarrow> machine \<Rightarrow> vm_error + outcome" where
  "exec_compare op f fs m =
     bind_err (pop f) (\<lambda>(right, f1). bind_err (pop f1) (\<lambda>(left, f2).
       bind_err (compareOp left right op) (\<lambda>result. push_continue f2 result fs m)))"

definition load_name :: "string \<Rightarrow> string \<Rightarrow> Frame \<Rightarrow> Frame list \<Rightarrow> machine \<Rightarrow> vm_error + outcome" where
  "load_name prefix name f fs m =
     (case globals m name of
        Some obj \<Rightarrow> push_continue f obj fs m
      | None \<Rightarrow> (case builtins name of
          Some obj \<Rightarrow> push_continue f obj fs m
        | None \<Rightarrow> Inl (RuntimeError (prefix @ quoted name @ '' is not defined''))))"

definition store_name :: "string \<Rightarrow> Frame \<Rightarrow> Frame list \<Rightarrow> machine \<Rightarrow> vm_error + outcome" where
  "store_name name f fs m =
     bind_err (pop f) (\<lambda>(v, f1). continue f1 fs (m\<lparr>globals := (globals m)(name \<mapsto> v)\<rparr>))"

fun build_dict :: "host \<Rightarrow> nat \<Rightarrow> machine \<Rightarrow> Frame \<Rightarrow> nat \<Rightarrow> hobj \<Rightarrow> vm_error + (hobj \<times> Frame)" where
  "build_dict h n m f 0 d = Inr (d, f)"
| "build_dict h n m f (Suc k) d =
     bind_err (pop f) (\<lambda>(v, f1). bind_err (pop f1) (\<lambda>(key, f2).
       bind_err (obj_String h n m key) (\<lambda>ks.
         (case d of DictObj pairs keys \<Rightarrow> build_dict h n m f2 k (dict_Set pairs keys ks v)
          | _ \<Rightarrow> Inl bad_addr))))"

definition opcode_number :: "OpCode \<Rightarrow> nat" where
  "opcode_number op = (case op of
      OpBuildTuple \<Rightarrow> 30 | OpSetupLoop \<Rightarrow> 41 | OpBreakLoop \<Rightarrow> 42 | OpContinueLoop \<Rightarrow> 43
    | OpUnknown k \<Rightarrow> k | _ \<Rightarrow> 0)"

definition unknown_opcode :: "OpCode \<Rightarrow> vm_error + outcome" where
  "unknown_opcode op = Inl (RuntimeError (''unknown opcode: '' @ Itoa (int (opcode_number op))))"

text \<open>
  One case of the \<open>switch\<close> in \<open>Run\<close>: the instruction has been fetched and \<open>IP\<close> already
  incremented.  \<open>f\<close> is the current frame, \<open>fs\<close> the frames below it.
\<close>

fun exec :: "host \<Rightarrow> nat \<Rightarrow> OpCode \<Rightarrow> int \<Rightarrow> Frame \<Rightarrow> Frame list \<Rightarrow> machine \<Rightarrow> vm_error + outcome" where
  "exec h n OpLoadConst arg f fs m =
     bind_err (index_of (Consts (Code f)) arg) (\<lambda>c. push_continue f c fs m)"
| "exec h n OpLoadName arg f fs m =
     bind_err (index_of (Names (Code f)) arg) (\<lambda>name. load_name ''name '' name f fs m)"
| "exec h n OpStoreName arg f fs m =
     bind_err (index_of (Names (Code f)) arg) (\<lambda>name. store_name name f fs m)"
| "exec h n OpLoadGlobal arg f fs m =
     bind_err (index_of (Names (Code f)) arg) (\<lambda>name. load_name ''global name '' name f fs m)"
| "exec h n OpStoreGlobal arg f fs m =
     bind_err (index_of (Names (Code f)) arg) (\<lambda>name. store_name name f fs m)"
| "exec h n OpLoadFast arg f fs m =
     bind_err (index_of (Locals f) arg) (\<lambda>v. push_continue f v fs m)"
| "exec h n OpStoreFast arg f fs m =
     bind_err (pop f) (\<lambda>(v, f1).
       if arg < 0 \<or> arg \<ge> int (length (Locals f1)) then Inl index_panic
       else continue (f1\<lparr>Locals := (Locals f1)[nat arg := v]\<rparr>) fs m)"
| "exec h n OpBinaryAdd arg f fs m = exec_binary h ''+'' f fs m"
| "exec h n OpBinarySub arg f fs m = exec_binary h ''-'' f fs m"
| "exec h n OpBinaryMul arg f fs m = exec_binary h ''*'' f fs m"
| "exec h n OpBinaryDiv arg f fs m = exec_binary h ''/'' f fs m"
| "exec h n OpBinaryMod arg f fs m = exec_binary h ''%'' f fs m"
| "exec h n OpUnaryPos arg f fs m = exec_unary ''+'' f fs m"
| "exec h n OpUnaryNeg arg f fs m = exec_unary ''-'' f fs m"
| "exec h n OpUnaryNot arg f fs m =
     bind_err (pop f) (\<lambda>(operand, f1).
       bind_err (obj_IsTruthy m operand) (\<lambda>b. push_continue f1 (PyBool (\<not> b)) fs m))"
| "exec h n OpCompareEq arg f fs m =
     bind_err (pop f) (\<lambda>(right, f1). bind_err (pop f1) (\<lambda>(left, f2).
       bind_err (obj_Equal n m left right) (\<lambda>b. push_continue f2 (PyBool b) fs m)))"
| "exec h n OpCompareNe arg f fs m =
     bind_err (pop f) (\<lambda>(right, f1). bind_err (pop f1) (\<lambda>(left, f2).
       bind_err (obj_Equal n m left right) (\<lambda>b. push_continue f2 (PyBool (\<not> b)) fs m)))"
| "exec h n OpCompareLt arg f fs m = exec_compare ''<'' f fs m"
| "exec h n OpCompareLe arg f fs m = exec_compare ''<='' f fs m"
| "exec h n OpCompareGt arg f fs m = exec_compare ''>'' f fs m"
| "exec h n OpCompareGe arg f fs m = exec_compare ''>='' f fs m"
| "exec h n OpCompareIn arg f fs m =
     bind_err (pop f) (\<lambda>(right, f1). bind_err (pop f1) (\<lambda>(left, f2).
       bind_err (inOp h n m left right) (\<lambda>result. push_continue f2 result fs m)))"
| "exec h n OpJumpForward arg f fs m = continue (f\<lparr>IP := signed_take_bit 63 (IP f + arg)\<rparr>) fs m"
| "exec h n OpJumpIfFalse arg f fs m =
     bind_err (obj_IsTruthy m (peek f)) (\<lambda>b. continue (if \<not> b then f\<lparr>IP := arg\<rparr> else f) fs m)"
| "exec h n OpJumpIfTrue arg f fs m =
     bind_err (obj_IsTruthy m (peek f)) (\<lambda>b. continue (if b then f\<lparr>IP := arg\<rparr> else f) fs m)"
| "exec h n OpJumpAbsolute arg f fs m = continue (f\<lparr>IP := arg\<rparr>) fs m"
| "exec h n OpPopJumpIfFalse arg f fs m =
     bind_err (pop f) (\<lambda>(obj, f1).
       bind_err (obj_IsTruthy m obj) (\<lambda>b. continue (if \<not> b then f1\<lparr>IP := arg\<rparr> else f1) fs m))"
| "exec h n OpPopJumpIfTrue arg f fs m =
     bind_err (pop f) (\<lambda>(obj, f1).
       bind_err (obj_IsTruthy m obj) (\<lambda>b. continue (if b then f1\<lparr>IP := arg\<rparr> else f1) fs m))"
| "exec h n OpBuildList arg f fs m =
     (if arg < 0 then Inl (Panic ''makeslice: len out of range'')
      else bind_err (pop_n f (nat arg) []) (\<lambda>(elements, f1).
        (case alloc m (ListObj elements) of (a, m') \<Rightarrow> push_continue f1 (PyList a) fs m')))"
| "exec h n OpBuildDict arg f fs m =
     bind_err (build_dict h n m f (nat arg) (DictObj [] [])) (\<lambda>(d, f1).
       (case alloc m d of (a, m') \<Rightarrow> push_continue f1 (PyDict a) fs m'))"
| "exec h n OpBinarySubscr arg f fs m =
     bind_err (pop f) (\<lambda>(index', f1). bind_err (pop f1) (\<lambda>(container, f2).
       bind_err (subscript h n m container index') (\<lambda>result. push_continue f2 result fs m)))"
| "exec h n OpStoreSubscr arg f fs m =
     bind_err (pop f) (\<lambda>(index', f1). bind_err (pop f1) (\<lambda>(container, f2). bind_err (pop f2) (\<lambda>(v, f3).
       bind_err (storeSubscript h n m container index' v) (\<lambda>m'. continue f3 fs m'))))"
| "exec h n OpCallFunction arg f fs m =
     (if arg < 0 then Inl (Panic ''makeslice: len out of range'')
      else bind_err (pop_n f (nat arg) []) (\<lambda>(args, f1). bind_err (pop f1) (\<lambda>(function, f2).
        (case function of
           PyBuiltin name impl \<Rightarrow>
             bind_err (call_builtin h n m impl args) (\<lambda>(result, m'). push_continue f2 result fs m')
         | PyFunction p code name \<Rightarrow>
             if int (length args) \<noteq> Argcount code then
               Inl (RuntimeError (''function takes '' @ Itoa (Argcount code) @ '' arguments but ''
                                  @ Itoa (int (length args)) @ '' were given''))
             else
               (let funcFrame = NewFrame code;
                    k = min (length (Locals funcFrame)) (length args);
                    funcFrame' = funcFrame\<lparr>Locals := take k args @ drop k (Locals funcFrame)\<rparr>
                in if length (f2 # fs) \<ge> 1000 then Inl index_panic
                   else Inr (Next (funcFrame' # f2 # fs) m))
         | _ \<Rightarrow> bind_err (obj_Type function) (\<lambda>t.
               Inl (RuntimeError (quoted t @ '' object is not callable'')))))))"
| "exec h n OpReturnValue arg f fs m =
     bind_err (pop f) (\<lambda>(result, f1).
       (case fs of
          [] \<Rightarrow> Inr (Returned result m)
        | caller # rest \<Rightarrow> bind_err (push caller result) (\<lambda>caller'. Inr (Next (caller' # rest) m))))"
| "exec h n OpPrintExpr arg f fs m =
     bind_err (pop f) (\<lambda>(obj, f1).
       bind_err (obj_String h n m obj) (\<lambda>s. continue f1 fs (m\<lparr>stdout := stdout m @ s\<rparr>)))"
| "exec h n OpPrintNewline arg f fs m = continue f fs (m\<lparr>stdout := stdout m @ [CHR 0x0A]\<rparr>)"
| "exec h n OpPopTop arg f fs m = bind_err (pop f) (\<lambda>(v, f1). continue f1 fs m)"
| "exec h n OpRotTwo arg f fs m =
     bind_err (pop f) (\<lambda>(a, f1). bind_err (pop f1) (\<lambda>(b, f2).
       bind_err (push f2 a) (\<lambda>f3. push_continue f3 b fs m)))"
| "exec h n OpRotThree arg f fs m =
     bind_err (pop f) (\<lambda>(a, f1). bind_err (pop f1) (\<lambda>(b, f2). bind_err (pop f2) (\<lambda>(c, f3).
       bind_err (push f3 a) (\<lambda>f4. bind_err (push f4 c) (\<lambda>f5. push_continue f5 b fs m)))))"
| "exec h n OpDupTop arg f fs m = push_continue f (peek f) fs m"
| "exec h n OpGetIter arg f fs m =
     bind_err (pop f) (\<lambda>(iterable, f1).
       (case iterable of
          PyList a \<Rightarrow> push_continue f1 (PyList a) fs m
        | PyString s \<Rightarrow>
            (case alloc m (ListObj (map (\<lambda>r. PyString (utf8_encode r)) (string_runes s))) of
               (a, m') \<Rightarrow> push_continue f1 (PyList a) fs m')
        | _ \<Rightarrow> bind_err (obj_Type iterable) (\<lambda>t.
              Inl (RuntimeError (''OpGetIter: '' @ quoted t @ '' object is not iterable'')))))"
| "exec h n OpForIter arg f fs m =
     bind_err (pop f) (\<lambda>(iterable, f1).
       (let (iterIndex, f2) =
              (case Stack f1 of
                 PyInt idx # st \<Rightarrow> (idx, f1\<lparr>Stack := st\<rparr>)
               | _ \<Rightarrow> (0, f1))
        in (case iterable of
              PyList a \<Rightarrow> (case deref m a of
                  Some (ListObj es) \<Rightarrow>
                    if sint iterIndex < int (length es) then
                      bind_err (push f2 (PyInt (iterIndex + 1))) (\<lambda>f3.
                      bind_err (push f3 (PyList a)) (\<lambda>f4.
                      bind_err (index_of es (sint iterIndex)) (\<lambda>e. push_continue f4 e fs m)))
                    else continue (f2\<lparr>IP := arg\<rparr>) fs m
                | _ \<Rightarrow> Inl bad_addr)
            | _ \<Rightarrow> bind_err (obj_Type iterable) (\<lambda>t.
                  Inl (RuntimeError (''OpForIter:'' @ quoted t @ '' object is not iterable''))))))"
| "exec h n OpNop arg f fs m = continue f fs m"
| "exec h n OpBuildTuple arg f fs m = unknown_opcode OpBuildTuple"
| "exec h n OpSetupLoop arg f fs m = unknown_opcode OpSetupLoop"
| "exec h n OpBreakLoop arg f fs m = unknown_opcode OpBreakLoop"
| "exec h n OpContinueLoop arg f fs m = unknown_opcode OpContinueLoop"
| "exec h n (OpUnknown k) arg f fs m = unknown_opcode (OpUnknown k)"

text \<open>
  The loop of \<open>Run\<close>.  The first argument bounds the number of iterations (and is handed
  to the operations that recurse or loop themselves); \<open>OutOfFuel\<close> stands for a run that
  has not ended within the bound.  The result is the returned value or error together
  with the machine (standard output, globals, objects) at that moment.
\<close>

fun run_loop :: "host \<Rightarrow> nat \<Rightarrow> Frame list \<Rightarrow> machine \<Rightarrow> (vm_error + value) \<times> machine" where
  "run_loop h 0 fs m = (Inl OutOfFuel, m)"
| "run_loop h (Suc n) [] m = (Inr PyNone, m)"
| "run_loop h (Suc n) (f # fs) m =
     (if IP f \<ge> int (length (Instructions (Code f))) then run_loop h n fs m
      else if IP f < 0 then (Inl index_panic, m)
      else (let instruction = Instructions (Code f) ! nat (IP f) in
            case exec h n (Op instruction) (Arg instruction) (f\<lparr>IP := IP f + 1\<rparr>) fs m of
              Inl e \<Rightarrow> (Inl e, m)
            | Inr (Next fs' m') \<Rightarrow> run_loop h n fs' m'
            | Inr (Returned v m') \<Rightarrow> (Inr v, m')))"

text \<open>
  \<open>NewVM\<close> makes empty globals and the built-in table; the objects that already exist
  (those the constants of a code object point to) are the store it is given.
\<close>

definition NewVM :: "hobj list \<Rightarrow> machine" where
  "NewVM cs = \<lparr>globals = Map.empty, stdout = [], vheap = [], cstore = cs\<rparr>"

definition Run :: "host \<Rightarrow> nat \<Rightarrow> machine \<Rightarrow> CodeObject \<Rightarrow> (vm_error + value) \<times> machine" where
  "Run h n vm code = run_loop h n [NewFrame code] vm"

section \<open>The abstract syntax tree\<close>

text \<open>
  Source positions are left out, except the line of a function definition, which the
  compiler stores.  \<open>go_value\<close> is the \<open>interface{}\<close> payload of a number or a named
  constant: the parser stores an \<open>int\<close> or a \<open>float64\<close> in a number and a \<open>bool\<close> or
  \<open>nil\<close> in a named constant.
\<close>

datatype go_value = GoInt go_int | GoFloat float64 | GoString string | GoBool bool | GoNilValue

datatype Expr =
    BinaryOp Expr string Expr
  | UnaryOp string Expr
  | BoolOp string "Expr list"
  | Compare Expr "string list" "Expr list"
  | Call Expr "Expr list"
  | Subscript Expr Expr
  | Name string
  | Num go_value
  | Str string
  | NameConstant go_value
  | List "Expr list"
  | Dict "Expr list" "Expr list"

datatype Stmt =
    AssignStmt Expr Expr
  | AugAssignStmt Expr string Expr
  | ExprStmt Expr
  | PrintStmt "Expr list"
  | IfStmt Expr "Stmt list" "Stmt list"
  | WhileStmt Expr "Stmt list"
  | ForStmt Expr Expr "Stmt list"
  | FuncDef string "string list" "Stmt list" int
  | ReturnStmt "Expr option"
  | PassStmt

fun expr_type_name :: "Expr \<Rightarrow> string" where
  "expr_type_name (BinaryOp _ _ _) = ''*ast.BinaryOp''"
| "expr_type_name (UnaryOp _ _) = ''*ast.UnaryOp''"
| "expr_type_name (BoolOp _ _) = ''*ast.BoolOp''"
| "expr_type_name (Compare _ _ _) = ''*ast.Compare''"
| "expr_type_name (Call _ _) = ''*ast.Call''"
| "expr_type_name (Subscript _ _) = ''*ast.Subscript''"
| "expr_type_name (Name _) = ''*ast.Name''"
| "expr_type_name (Num _) = ''*ast.Num''"
| "expr_type_name (Str _) = ''*ast.Str''"
| "expr_type_name (NameConstant _) = ''*ast.NameConstant''"
| "expr_type_name (List _) = ''*ast.List''"
| "expr_type_name (Dict _ _) = ''*ast.Dict''"

section \<open>The compiler\<close>

text \<open>
  The three dedup maps are Go maps from a string to an index.  \<open>nextPtr\<close> is not a field
  of the Go struct: it numbers the code objects that \<open>compileFuncDefStmt\<close> allocates, so
  that a function value carries the identity of its code object.
\<close>

record Compiler =
  instructions :: "Instruction list"
  consts' :: "value list"
  names :: "string list"
  varnames :: "string list"
  constMap :: "string \<Rightarrow> nat option"
  nameMap :: "string \<Rightarrow> nat option"
  varnameMap :: "string \<Rightarrow> nat option"
  loopStack :: "nat list"
  scopeDepth :: int
  nextPtr :: nat

datatype compile_error = CompileError string | CompilePanic string

definition NewCompiler :: Compiler where
  "NewCompiler = \<lparr>instructions = [], consts' = [], names = [], varnames = [],
     constMap = Map.empty, nameMap = Map.empty, varnameMap = Map.empty,
     loopStack = [], scopeDepth = 0, nextPtr = 0\<rparr>"

definition emit :: "Compiler \<Rightarrow> OpCode \<Rightarrow> int \<Rightarrow> Compiler" where
  "emit c op arg = c\<lparr>instructions := instructions c @ [\<lparr>Op = op, Arg = arg\<rparr>]\<rparr>"

definition changeOperand :: "Compiler \<Rightarrow> nat \<Rightarrow> int \<Rightarrow> Compiler" where
  "changeOperand c pos arg = c\<lparr>instructions := (instructions c)[pos := (instructions c ! pos)\<lparr>Arg := arg\<rparr>]\<rparr>"

fun go_type_name :: "value \<Rightarrow> string" where
  "go_type_name GoNil = ''<nil>''"
| "go_type_name (PyInt _) = ''*runtime.PyInt''"
| "go_type_name (PyFloat _) = ''*runtime.PyFloat''"
| "go_type_name (PyString _) = ''*runtime.PyString''"
| "go_type_name (PyBool _) = ''*runtime.PyBool''"
| "go_type_name PyNone = ''*runtime.PyNone''"
| "go_type_name (PyList _) = ''*runtime.PyList''"
| "go_type_name (PyDict _) = ''*runtime.PyDict''"
| "go_type_name (PyFunction _ _ _) = ''*compiler.PyFunction''"
| "go_type_name (PyBuiltin _ _) = ''*compiler.PyBuiltin''"

text \<open>The dedup key \<open>"%T:%s"\<close>.  The compiler only adds scalars and functions, whose
  rendering needs no object store.\<close>

definition const_key :: "host \<Rightarrow> value \<Rightarrow> string" where
  "const_key h obj =
     go_type_name obj @ '':'' @ (case obj_String h 0 (NewVM []) obj of Inr s \<Rightarrow> s | Inl e \<Rightarrow> [])"

definition addConstant :: "host \<Rightarrow> Compiler \<Rightarrow> value \<Rightarrow> nat \<times> Compiler" where
  "addConstant h c obj =
     (case constMap c (const_key h obj) of
        Some idx \<Rightarrow> (idx, c)
      | None \<Rightarrow> (length (consts' c),
          c\<lparr>consts' := consts' c @ [obj], constMap := (constMap c)(const_key h obj \<mapsto> length (consts' c))\<rparr>))"

definition addName :: "Compiler \<Rightarrow> string \<Rightarrow> nat \<times> Compiler" where
  "addName c name =
     (case nameMap c name of
        Some idx \<Rightarrow> (idx, c)
      | None \<Rightarrow> (length (names c),
          c\<lparr>names := names c @ [name], nameMap := (nameMap c)(name \<mapsto> length (names c))\<rparr>))"

definition addVarname :: "Compiler \<Rightarrow> string \<Rightarrow> nat \<times> Compiler" where
  "addVarname c name =
     (case varnameMap c name of
        Some idx \<Rightarrow> (idx, c)
      | None \<Rightarrow> (length (varnames c),
          c\<lparr>varnames := varnames c @ [name], varnameMap := (varnameMap c)(name \<mapsto> length (varnames c))\<rparr>))"

definition emit_const :: "host \<Rightarrow> Compiler \<Rightarrow> value \<Rightarrow> Compiler" where
  "emit_const h c obj = (case addConstant h c obj of (idx, c') \<Rightarrow> emit c' OpLoadConst (int idx))"

definition emit_name :: "Compiler \<Rightarrow> OpCode \<Rightarrow> string \<Rightarrow> Compiler" where
  "emit_name c op name = (case addName c name of (idx, c') \<Rightarrow> emit c' op (int idx))"

definition emit_varname :: "Compiler \<Rightarrow> OpCode \<Rightarrow> string \<Rightarrow> Compiler" where
  "emit_varname c op name = (case addVarname c name of (idx, c') \<Rightarrow> emit c' op (int idx))"

text \<open>\<open>runtime.ToPyObject\<close> on the five payloads the parser produces.\<close>

fun ToPyObject :: "go_value \<Rightarrow> value" where
  "ToPyObject (GoInt v) = PyInt v"
| "ToPyObject (GoFloat v) = PyFloat v"
| "ToPyObject (GoString v) = PyString v"
| "ToPyObject (GoBool v) = PyBool v"
| "ToPyObject GoNilValue = PyNone"

definition binary_opcode :: "string \<Rightarrow> OpCode option" where
  "binary_opcode op =
     (if op = ''+'' then Some OpBinaryAdd else if op = ''-'' then Some OpBinarySub
      else if op = ''*'' then Some OpBinaryMul else if op = ''/'' then Some OpBinaryDiv
      else if op = ''%'' then Some OpBinaryMod else None)"

definition unary_opcode :: "string \<Rightarrow> OpCode option" where
  "unary_opcode op =
     (if op = ''+'' then Some OpUnaryPos else if op = ''-'' then Some OpUnaryNeg
      else if op = ''not'' then Some OpUnaryNot else None)"

definition compare_opcode :: "string \<Rightarrow> OpCode option" where
  "compare_opcode op =
     (if op = ''=='' then Some OpCompareEq else if op = ''!='' then Some OpCompareNe
      else if op = ''<'' then Some OpCompareLt else if op = ''<='' then Some OpCompareLe
      else if op = ''>'' then Some OpCompareGt else if op = ''>='' then Some OpCompareGe
      else if op = ''in'' then Some OpCompareIn else None)"

text \<open>\<open>compileName\<close>.\<close>

definition compileName :: "Compiler \<Rightarrow> string \<Rightarrow> Compiler" where
  "compileName c ident =
     (if scopeDepth c = 0 then emit_name c OpLoadName ident
      else if varnameMap c ident \<noteq> None then emit_varname c OpLoadFast ident
      else emit_name c OpLoadGlobal ident)"

text \<open>The store to a name target, shared by assignment, augmented assignment and \<open>for\<close>.\<close>

definition store_target :: "Compiler \<Rightarrow> string \<Rightarrow> Compiler" where
  "store_target c ident =
     (if scopeDepth c = 0 then emit_name c OpStoreName ident else emit_varname c OpStoreFast ident)"

text \<open>
  \<open>compileExpr\<close>.  The loops over sub-expressions run the compilations of the operands
  in order (\<open>compileExprs\<close> for the elements of a list and the arguments of a call).
  \<open>compileBoolRest\<close> is the loop of \<open>compileBoolOp\<close> over the operands after the first;
  it collects the positions of the jumps to patch.
\<close>

type_synonym compile_step = "Compiler \<Rightarrow> compile_error + Compiler"

fun compileExprs :: "compile_step list \<Rightarrow> compile_step" where
  "compileExprs [] c = Inr c"
| "compileExprs (e # es) c = bind_err (e c) (compileExprs es)"

fun compileBoolRest :: "compile_step list \<Rightarrow> string \<Rightarrow> Compiler \<Rightarrow> nat list \<Rightarrow> compile_error + (Compiler \<times> nat list)" where
  "compileBoolRest [] op c jumpPositions = Inr (c, jumpPositions)"
| "compileBoolRest (v # vs) op c jumpPositions =
     (let c1 = emit c OpDupTop 0;
          pos = length (instructions c1);
          c2 = emit c1 (if op = ''and'' then OpPopJumpIfFalse else OpPopJumpIfTrue) 0;
          c3 = emit c2 OpPopTop 0
      in bind_err (v c3) (\<lambda>c4. compileBoolRest vs op c4 (jumpPositions @ [pos])))"

definition patch_jumps :: "Compiler \<Rightarrow> nat list \<Rightarrow> Compiler" where
  "patch_jumps c jumpPositions =
     foldl (\<lambda>c' pos. changeOperand c' pos (int (length (instructions c')))) c jumpPositions"

fun compileCompareRest :: "string list \<Rightarrow> compile_step list \<Rightarrow> compile_step" where
  "compileCompareRest [] rights c = Inr c"
| "compileCompareRest (op # ops) rights c =
     (case rights of
        [] \<Rightarrow> Inl (CompilePanic ''index out of range'')
      | r # rs \<Rightarrow>
          bind_err (r c) (\<lambda>c1.
            (case compare_opcode op of
               Some oc \<Rightarrow> compileCompareRest ops rs (emit c1 oc 0)
             | None \<Rightarrow> Inl (CompileError (''unsupported comparison operator: '' @ op)))))"

fun compileDictItems :: "compile_step list \<Rightarrow> compile_step list \<Rightarrow> compile_step" where
  "compileDictItems [] vals c = Inr c"
| "compileDictItems (k # ks) vals c =
     bind_err (k c) (\<lambda>c1.
       (case vals of
          [] \<Rightarrow> Inl (CompilePanic ''index out of range'')
        | v # vs \<Rightarrow> bind_err (v c1) (compileDictItems ks vs)))"

primrec compileExpr :: "host \<Rightarrow> Expr \<Rightarrow> compile_step" where
  "compileExpr h (BinaryOp left op right) c =
     bind_err (compileExpr h left c) (\<lambda>c1. bind_err (compileExpr h right c1) (\<lambda>c2.
       (case binary_opcode op of
          Some oc \<Rightarrow> Inr (emit c2 oc 0)
        | None \<Rightarrow> Inl (CompileError (''unsupported binary operator: '' @ op)))))"
| "compileExpr h (UnaryOp op e) c =
     bind_err (compileExpr h e c) (\<lambda>c1.
       (case unary_opcode op of
          Some oc \<Rightarrow> Inr (emit c1 oc 0)
        | None \<Rightarrow> Inl (CompileError (''unsupported unary operator: '' @ op))))"
| "compileExpr h (BoolOp op vs) c =
     (case map (compileExpr h) vs of
        v0 # v1 # rest \<Rightarrow>
          bind_err (v0 c) (\<lambda>c1.
            bind_err (compileBoolRest (v1 # rest) op c1 []) (\<lambda>(c2, jumpPositions).
              Inr (patch_jumps c2 jumpPositions)))
      | _ \<Rightarrow> Inl (CompileError ''boolean operation needs at least 2 values''))"
| "compileExpr h (Compare left ops rights) c =
     bind_err (compileExpr h left c) (compileCompareRest ops (map (compileExpr h) rights))"
| "compileExpr h (Call func args) c =
     bind_err (compileExpr h func c) (\<lambda>c1. bind_err (compileExprs (map (compileExpr h) args) c1) (\<lambda>c2.
       Inr (emit c2 OpCallFunction (int (length args)))))"
| "compileExpr h (Subscript v sl) c =
     bind_err (compileExpr h v c) (\<lambda>c1. bind_err (compileExpr h sl c1) (\<lambda>c2.
       Inr (emit c2 OpBinarySubscr 0)))"
| "compileExpr h (Name ident) c = Inr (compileName c ident)"
| "compileExpr h (Num n) c = Inr (emit_const h c (ToPyObject n))"
| "compileExpr h (Str s) c = Inr (emit_const h c (PyString s))"
| "compileExpr h (NameConstant v) c = Inr (emit_const h c (ToPyObject v))"
| "compileExpr h (List elts) c =
     bind_err (compileExprs (map (compileExpr h) elts) c) (\<lambda>c1. Inr (emit c1 OpBuildList (int (length elts))))"
| "compileExpr h (Dict keys vals) c =
     bind_err (compileDictItems (map (compileExpr h) keys) (map (compileExpr h) vals) c)
       (\<lambda>c1. Inr (emit c1 OpBuildDict (int (length keys))))"

text \<open>
  Statements.  \<open>compilePrintValues\<close> is the loop of \<open>compilePrintStmt\<close>: after each value
  but the last it prints the constant string of one space.
\<close>

fun compilePrintValues :: "host \<Rightarrow> compile_step list \<Rightarrow> compile_step" where
  "compilePrintValues h [] c = Inr c"
| "compilePrintValues h (v # vs) c =
     bind_err (v c) (\<lambda>c1.
       (let c2 = emit c1 OpPrintExpr 0;
            c3 = (if vs \<noteq> [] then emit (emit_const h c2 (PyString '' '')) OpPrintExpr 0 else c2)
        in compilePrintValues h vs c3))"

text \<open>
  \<open>compileFuncDef\<close>, given the compilations of the statements of the body.  It returns the
  code object and the next free code-object number.
\<close>

definition compileFuncDefBody ::
  "host \<Rightarrow> compile_step list \<Rightarrow> Compiler \<Rightarrow> string \<Rightarrow> string list \<Rightarrow> int \<Rightarrow> compile_error + (CodeObject \<times> nat)" where
  "compileFuncDefBody h body c name args line =
     (let c1 = foldl (\<lambda>c' a. snd (addVarname c' a)) c args
      in bind_err (compileExprs body c1) (\<lambda>c2.
           (let c3 = emit (emit_const h c2 PyNone) OpReturnValue 0
            in Inr (CodeObject (instructions c3) (consts' c3) (names c3) (varnames c3)
                      (int (length args)) ''<function>'' name line, nextPtr c3))))"

primrec compileStmt :: "host \<Rightarrow> Stmt \<Rightarrow> compile_step" where
  "compileStmt h (AssignStmt target v) c =
     bind_err (compileExpr h v c) (\<lambda>c1.
       (case target of
          Name ident \<Rightarrow> Inr (store_target c1 ident)
        | Subscript tv ts \<Rightarrow>
            bind_err (compileExpr h tv c1) (\<lambda>c2. bind_err (compileExpr h ts c2) (\<lambda>c3.
              Inr (emit c3 OpStoreSubscr 0)))
        | _ \<Rightarrow> Inl (CompileError (''unsupported assignment target: '' @ expr_type_name target))))"
| "compileStmt h (AugAssignStmt target op v) c =
     (case target of
        Name ident \<Rightarrow>
          (let c1 = (if scopeDepth c = 0 then emit_name c OpLoadName ident
                     else emit_varname c OpLoadFast ident)
           in bind_err (compileExpr h v c1) (\<lambda>c2.
                if op = ''+='' then Inr (store_target (emit c2 OpBinaryAdd 0) ident)
                else if op = ''-='' then Inr (store_target (emit c2 OpBinarySub 0) ident)
                else Inl (CompileError (''unsupported augmented assignment operator: '' @ op))))
      | _ \<Rightarrow> Inl (CompileError (''unsupported augmented assignment target: '' @ expr_type_name target)))"
| "compileStmt h (ExprStmt e) c =
     bind_err (compileExpr h e c) (\<lambda>c1. Inr (emit c1 OpPopTop 0))"
| "compileStmt h (PrintStmt vals) c =
     bind_err (compilePrintValues h (map (compileExpr h) vals) c) (\<lambda>c1. Inr (emit c1 OpPrintNewline 0))"
| "compileStmt h (IfStmt test body orelse) c =
     bind_err (compileExpr h test c) (\<lambda>c1.
       (let jumpIfFalse = length (instructions c1);
            c2 = emit c1 OpPopJumpIfFalse 0
        in bind_err (compileExprs (map (compileStmt h) body) c2) (\<lambda>c3.
             (let jumpEnd = length (instructions c3);
                  c4 = (if length orelse > 0 then emit c3 OpJumpForward 0 else c3);
                  c5 = changeOperand c4 jumpIfFalse (int (length (instructions c4)))
              in if length orelse > 0 then
                   bind_err (compileExprs (map (compileStmt h) orelse) c5) (\<lambda>c6.
                     Inr (changeOperand c6 jumpEnd (int (length (instructions c6)))))
                 else Inr c5))))"
| "compileStmt h (WhileStmt test body) c =
     (let loopStart = length (instructions c);
          c0 = c\<lparr>loopStack := loopStack c @ [loopStart]\<rparr>
      in bind_err (compileExpr h test c0) (\<lambda>c1.
           (let jumpIfFalse = length (instructions c1);
                c2 = emit c1 OpPopJumpIfFalse 0
            in bind_err (compileExprs (map (compileStmt h) body) c2) (\<lambda>c3.
                 (let c4 = emit c3 OpJumpAbsolute (int loopStart);
                      c5 = changeOperand c4 jumpIfFalse (int (length (instructions c4)))
                  in Inr (c5\<lparr>loopStack := butlast (loopStack c5)\<rparr>))))))"
| "compileStmt h (ForStmt target iter body) c =
     bind_err (compileExpr h iter c) (\<lambda>c1.
       (let c2 = emit c1 OpGetIter 0;
            loopStart = length (instructions c2);
            c3 = c2\<lparr>loopStack := loopStack c2 @ [loopStart]\<rparr>;
            forIter = length (instructions c3);
            c4 = emit c3 OpForIter 0
        in (case target of
              Name ident \<Rightarrow>
                bind_err (compileExprs (map (compileStmt h) body) (store_target c4 ident)) (\<lambda>c5.
                  (let c6 = emit c5 OpJumpAbsolute (int loopStart);
                       c7 = changeOperand c6 forIter (int (length (instructions c6)))
                   in Inr (c7\<lparr>loopStack := butlast (loopStack c7)\<rparr>)))
            | _ \<Rightarrow> Inl (CompileError (''unsupported for target: '' @ expr_type_name target)))))"
| "compileStmt h (FuncDef name args body line) c =
     bind_err (compileFuncDefBody h (map (compileStmt h) body)
                 (NewCompiler\<lparr>scopeDepth := scopeDepth c + 1, nextPtr := nextPtr c\<rparr>) name args line)
       (\<lambda>(codeObj, p).
          Inr (emit_name (emit_const h (c\<lparr>nextPtr := Suc p\<rparr>) (PyFunction p codeObj name)) OpStoreName name))"
| "compileStmt h (ReturnStmt v) c =
     bind_err (case v of Some e \<Rightarrow> compileExpr h e c | None \<Rightarrow> Inr (emit_const h c PyNone))
       (\<lambda>c1. Inr (emit c1 OpReturnValue 0))"
| "compileStmt h PassStmt c = Inr c"

definition compileFuncDef ::
  "host \<Rightarrow> Compiler \<Rightarrow> string \<Rightarrow> string list \<Rightarrow> Stmt list \<Rightarrow> int \<Rightarrow> compile_error + (CodeObject \<times> nat)" where
  "compileFuncDef h c name args body line = compileFuncDefBody h (map (compileStmt h) body) c name args line"

text \<open>
  \<open>compileModule\<close>.  The loop treats the last statement specially when it is an
  expression statement; the flag says whether that path has already emitted the return.
\<close>

fun compileModuleBody :: "host \<Rightarrow> Stmt list \<Rightarrow> Compiler \<Rightarrow> compile_error + (Compiler \<times> bool)" where
  "compileModuleBody h [] c = Inr (c, False)"
| "compileModuleBody h (stmt # rest) c =
     (if rest = [] then
        (case stmt of
           ExprStmt e \<Rightarrow> bind_err (compileExpr h e c) (\<lambda>c1. Inr (emit c1 OpReturnValue 0, True))
         | _ \<Rightarrow> bind_err (compileStmt h stmt c) (\<lambda>c1. Inr (c1, False)))
      else bind_err (compileStmt h stmt c) (compileModuleBody h rest))"

definition module_code :: "Compiler \<Rightarrow> CodeObject" where
  "module_code c = CodeObject (instructions c) (consts' c) (names c) (varnames c) 0 ''<module>'' ''<module>'' 1"

definition compileModule :: "host \<Rightarrow> Compiler \<Rightarrow> Stmt list \<Rightarrow> compile_error + CodeObject" where
  "compileModule h c body =
     bind_err (compileModuleBody h body c) (\<lambda>(c1, returned).
       Inr (module_code (if returned then c1 else emit (emit_const h c1 PyNone) OpReturnValue 0)))"

definition Compile :: "host \<Rightarrow> Stmt list \<Rightarrow> compile_error + CodeObject" where
  "Compile h body = compileModule h NewCompiler body"


section \<open>The lexer (pkg/lexer)\<close>

datatype TokenType =
    ILLEGAL | EOF
  | IDENT | INT' | FLOAT | STRING
  | ASSIGN | PLUS | MINUS | MULTIPLY | DIVIDE | MODULO | PLUS_ASSIGN | MINUS_ASSIGN
  | EQ | NOT_EQ | LT | GT | LTE | GTE
  | AND' | OR' | NOT'
  | COMMA | COLON | SEMICOLON | LPAREN | RPAREN | LBRACKET | RBRACKET | LBRACE | RBRACE
  | NEWLINE | INDENT | DEDENT
  | IF | ELIF | ELSE | WHILE | FOR | IN | DEF | RETURN | PRINT | TRUE | FALSE | NONE | RANGE | PASS

record Token =
  Type :: TokenType
  Lexeme :: string
  Line :: int
  Column :: int

definition keywords' :: "(string \<times> TokenType) list" where
  "keywords' =
     [(''if'', IF), (''elif'', ELIF), (''else'', ELSE), (''while'', WHILE), (''for'', FOR),
      (''in'', IN), (''def'', DEF), (''return'', RETURN), (''print'', PRINT), (''True'', TRUE),
      (''False'', FALSE), (''None'', NONE), (''and'', AND'), (''or'', OR'), (''not'', NOT'),
      (''range'', RANGE), (''pass'', PASS)]"

definition LookupIdent :: "string \<Rightarrow> TokenType" where
  "LookupIdent ident = (case map_of keywords' ident of Some tok \<Rightarrow> tok | None \<Rightarrow> IDENT)"

text \<open>
  \<open>unicode.IsDigit\<close> and \<open>unicode.IsLetter\<close> of the Go standard library.  Up to U+00FF both
  are fixed here as the library fixes them (the decimal digits; the letters of Latin-1);
  beyond, they read the range tables of the Unicode version of the Go release, which are a
  parameter.
\<close>

record unicode_tables =
  digit_beyond_latin1 :: "rune \<Rightarrow> bool"
  letter_beyond_latin1 :: "rune \<Rightarrow> bool"

definition IsDigit :: "unicode_tables \<Rightarrow> rune \<Rightarrow> bool" where
  "IsDigit u r = (if r \<le> 0xFF then 0x30 \<le> r \<and> r \<le> 0x39 else digit_beyond_latin1 u r)"

definition IsLetter :: "unicode_tables \<Rightarrow> rune \<Rightarrow> bool" where
  "IsLetter u r =
     (if r \<le> 0xFF
      then (0x41 \<le> r \<and> r \<le> 0x5A) \<or> (0x61 \<le> r \<and> r \<le> 0x7A) \<or> r = 0xAA \<or> r = 0xB5 \<or> r = 0xBA
           \<or> (0xC0 \<le> r \<and> r \<le> 0xD6) \<or> (0xD8 \<le> r \<and> r \<le> 0xF6) \<or> 0xF8 \<le> r
      else letter_beyond_latin1 u r)"

text \<open>\<open>string(rs)\<close> of a slice of code points.\<close>

definition runes_string :: "rune list \<Rightarrow> string" where
  "runes_string rs = concat (map utf8_encode rs)"

text \<open>
  The lexer state.  \<open>indentStack\<close> is kept top first: the last element of the Go slice is the
  head of the list, \<open>append\<close> is \<open>#\<close> and dropping the last element is \<open>tl\<close>.  Its entries are
  indentation widths, counted up from 0, and \<open>position\<close> is an index into \<open>src\<close> that is only
  decremented right after it was incremented; both are natural numbers.
\<close>

record Lexer =
  src :: "rune list"
  position :: nat
  line :: int
  column :: int
  indentStack :: "nat list"
  atLineStart :: bool
  pendingDedents :: int

definition NewLexer :: "string \<Rightarrow> Lexer" where
  "NewLexer s =
     \<lparr>src = string_runes s, position = 0, line = 1, column = 1, indentStack = [0],
      atLineStart = True, pendingDedents = 0\<rparr>"

definition peekChar :: "Lexer \<Rightarrow> rune" where
  "peekChar l = (if position l \<ge> length (src l) then 0 else src l ! position l)"

definition readChar :: "Lexer \<Rightarrow> rune \<times> Lexer" where
  "readChar l =
     (if position l \<ge> length (src l) then (0, l)
      else let ch = src l ! position l;
               l1 = l\<lparr>position := position l + 1\<rparr>
           in if ch = of_char (CHR 0x0A)
              then (ch, l1\<lparr>line := line l1 + 1, column := 1, atLineStart := True\<rparr>)
              else (ch, l1\<lparr>column := column l1 + 1\<rparr>))"

text \<open>
  What is left to read, doubled, plus one if the lexer is at the start of a line: reading
  a character lowers it, and so it bounds every loop of the lexer.
\<close>

definition remaining :: "Lexer \<Rightarrow> nat" where
  "remaining l = 2 * (length (src l) - position l) + (if atLineStart l then 1 else 0)"

lemma peekChar_nonzero: "peekChar l \<noteq> 0 \<Longrightarrow> position l < length (src l)"
  by (simp add: peekChar_def split: if_splits)

lemma readChar_less: "position l < length (src l) \<Longrightarrow> remaining (snd (readChar l)) < remaining l"
  by (auto simp: readChar_def remaining_def Let_def)

lemma readChar_le: "remaining (snd (readChar l)) \<le> remaining l"
  by (cases "position l < length (src l)") (auto simp: readChar_def remaining_def Let_def)

lemma readChar_peek_less: "peekChar l \<noteq> 0 \<Longrightarrow> remaining (snd (readChar l)) < remaining l"
  by (simp add: readChar_less peekChar_nonzero)

function skipWhitespace :: "Lexer \<Rightarrow> Lexer" where
  "skipWhitespace l =
     (if peekChar l = of_char CHR '' '' \<or> peekChar l = of_char (CHR 0x09) \<or> peekChar l = of_char (CHR 0x0D)
      then skipWhitespace (snd (readChar l))
      else l)"
  by pat_completeness auto
termination
  by (relation "measure remaining") (auto intro!: readChar_peek_less)

declare skipWhitespace.simps [simp del]

text \<open>The loop of \<open>readString\<close>, with the code points collected so far.\<close>

definition unescape :: "rune \<Rightarrow> rune" where
  "unescape next =
     (if next = of_char CHR ''n'' then of_char (CHR 0x0A)
      else if next = of_char CHR ''t'' then of_char (CHR 0x09)
      else if next = of_char CHR ''r'' then of_char (CHR 0x0D)
      else if next = of_char (CHR 0x5C) then of_char (CHR 0x5C)
      else if next = of_char (CHR 0x27) then of_char (CHR 0x27)
      else if next = of_char (CHR 0x22) then of_char (CHR 0x22)
      else next)"

function readStringLoop :: "rune \<Rightarrow> rune list \<Rightarrow> Lexer \<Rightarrow> rune list \<times> Lexer" where
  "readStringLoop quote result l =
     (if peekChar l = 0 \<or> peekChar l = quote then (result, l)
      else if peekChar l = of_char (CHR 0x5C)
      then readStringLoop quote (result @ [unescape (fst (readChar (snd (readChar l))))])
             (snd (readChar (snd (readChar l))))
      else readStringLoop quote (result @ [fst (readChar l)]) (snd (readChar l)))"
  by pat_completeness auto
termination
proof (relation "measure (\<lambda>(quote, result, l). remaining l)", goal_cases)
  case 1
  show ?case by simp
next
  case (2 quote result l)
  have "remaining (snd (readChar (snd (readChar l)))) \<le> remaining (snd (readChar l))"
    by (rule readChar_le)
  moreover have "remaining (snd (readChar l)) < remaining l"
    using 2 by (intro readChar_peek_less) simp
  ultimately show ?case by simp
next
  case (3 quote result l)
  then show ?case by (simp add: readChar_peek_less)
qed

declare readStringLoop.simps [simp del]

definition readString :: "rune \<Rightarrow> Lexer \<Rightarrow> string \<times> Lexer" where
  "readString quote l =
     (let (result, l1) = readStringLoop quote [] l;
          l2 = (if peekChar l1 = quote then snd (readChar l1) else l1)
      in (runes_string result, l2))"

function readNumberLoop :: "unicode_tables \<Rightarrow> bool \<Rightarrow> Lexer \<Rightarrow> bool \<times> Lexer" where
  "readNumberLoop u hasDecimal l =
     (if IsDigit u (peekChar l) then readNumberLoop u hasDecimal (snd (readChar l))
      else if peekChar l = of_char CHR ''.'' \<and> \<not> hasDecimal then readNumberLoop u True (snd (readChar l))
      else (hasDecimal, l))"
  by pat_completeness auto
termination
  by (relation "measure (\<lambda>(u, hasDecimal, l). remaining l)")
     (auto intro!: readChar_peek_less simp: IsDigit_def split: if_splits)

declare readNumberLoop.simps [simp del]

definition readNumber :: "unicode_tables \<Rightarrow> Lexer \<Rightarrow> (string \<times> TokenType) \<times> Lexer" where
  "readNumber u l =
     (let start = position l;
          (hasDecimal, l1) = readNumberLoop u False l;
          tokenType = (if hasDecimal then FLOAT else INT')
      in ((runes_string (take (position l1 - start) (drop start (src l1))), tokenType), l1))"

function readIdentifierLoop :: "unicode_tables \<Rightarrow> Lexer \<Rightarrow> Lexer" where
  "readIdentifierLoop u l =
     (if IsLetter u (peekChar l) \<or> IsDigit u (peekChar l) \<or> peekChar l = of_char CHR ''_''
      then readIdentifierLoop u (snd (readChar l))
      else l)"
  by pat_completeness auto
termination
  by (relation "measure (\<lambda>(u, l). remaining l)")
     (auto intro!: readChar_peek_less simp: IsDigit_def IsLetter_def split: if_splits)

declare readIdentifierLoop.simps [simp del]

definition readIdentifier :: "unicode_tables \<Rightarrow> Lexer \<Rightarrow> string \<times> Lexer" where
  "readIdentifier u l =
     (let start = position l
      in if \<not> IsLetter u (peekChar l) \<and> peekChar l \<noteq> of_char CHR ''_'' then ([], l)
         else let l1 = readIdentifierLoop u l
              in (runes_string (take (position l1 - start) (drop start (src l1))), l1))"

function skipComment :: "Lexer \<Rightarrow> Lexer" where
  "skipComment l =
     (if peekChar l = 0 \<or> peekChar l = of_char (CHR 0x0A) then l
      else skipComment (snd (readChar l)))"
  by pat_completeness auto
termination
  by (relation "measure remaining") (auto intro!: readChar_peek_less)

declare skipComment.simps [simp del]

text \<open>The loop of \<open>handleIndentation\<close> that measures the indentation of a line.\<close>

function indentLoop :: "nat \<Rightarrow> Lexer \<Rightarrow> nat \<times> Lexer" where
  "indentLoop indentLevel l =
     (if peekChar l = of_char CHR '' '' then indentLoop (indentLevel + 1) (snd (readChar l))
      else if peekChar l = of_char (CHR 0x09) then indentLoop (indentLevel + 8) (snd (readChar l))
      else (indentLevel, l))"
  by pat_completeness auto
termination
  by (relation "measure (\<lambda>(indentLevel, l). remaining l)") (auto intro!: readChar_peek_less)

declare indentLoop.simps [simp del]

text \<open>
  The loop of \<open>handleIndentation\<close> that pops the levels deeper than the new indentation,
  counting them; the bottom level is never popped.
\<close>

fun dedentLoop :: "nat list \<Rightarrow> nat \<Rightarrow> int \<Rightarrow> nat list \<times> int" where
  "dedentLoop (level # below # rest) indentLevel dedentCount =
     (if level > indentLevel then dedentLoop (below # rest) indentLevel (dedentCount + 1)
      else (level # below # rest, dedentCount))"
| "dedentLoop stack indentLevel dedentCount = (stack, dedentCount)"

text \<open>
  \<open>handleIndentation\<close> returns the token, if there is one, and the lexer.  Reading the top of
  an empty indentation stack panics (index out of range); that is the result \<open>None\<close>.
\<close>

definition indentation_error :: string where
  "indentation_error = ''indentation error''"

definition handleIndentation :: "Lexer \<Rightarrow> (Token option \<times> Lexer) option" where
  "handleIndentation l =
     (if pendingDedents l > 0
      then Some (Some \<lparr>Type = DEDENT, Lexeme = [], Line = line l, Column = column l\<rparr>,
                 l\<lparr>pendingDedents := pendingDedents l - 1\<rparr>)
      else if \<not> atLineStart l then Some (None, l)
      else
        let start = column l;
            (indentLevel, l1) = indentLoop 0 (l\<lparr>atLineStart := False\<rparr>)
        in if peekChar l1 = of_char (CHR 0x0A) \<or> peekChar l1 = of_char CHR ''#'' \<or> peekChar l1 = 0
           then Some (None, l1)
           else (case indentStack l1 of
                   [] \<Rightarrow> None
                 | currentIndent # below \<Rightarrow>
                     if indentLevel > currentIndent
                     then Some (Some \<lparr>Type = INDENT, Lexeme = [], Line = line l1, Column = start\<rparr>,
                                l1\<lparr>indentStack := indentLevel # indentStack l1\<rparr>)
                     else if indentLevel < currentIndent
                     then
                       let (stack, dedentCount) = dedentLoop (indentStack l1) indentLevel 0;
                           l2 = l1\<lparr>indentStack := stack\<rparr>
                       in if stack = [] \<or> hd stack \<noteq> indentLevel
                          then Some (Some \<lparr>Type = ILLEGAL, Lexeme = indentation_error,
                                           Line = line l2, Column = start\<rparr>, l2)
                          else Some (Some \<lparr>Type = DEDENT, Lexeme = [], Line = line l2, Column = start\<rparr>,
                                     l2\<lparr>pendingDedents := dedentCount - 1\<rparr>)
                     else Some (None, l1)))"

text \<open>
  The operators that may be followed by \<open>=\<close>: \<open>if l.peekChar() == '=' { l.readChar(); return
  the two-character token }\<close>, else the one-character token.
\<close>

definition withEq :: "Lexer \<Rightarrow> int \<Rightarrow> int \<Rightarrow> TokenType \<times> string \<Rightarrow> TokenType \<times> string \<Rightarrow> Token \<times> Lexer" where
  "withEq l ln col two one =
     (if peekChar l = of_char CHR ''=''
      then (\<lparr>Type = fst two, Lexeme = snd two, Line = ln, Column = col\<rparr>, snd (readChar l))
      else (\<lparr>Type = fst one, Lexeme = snd one, Line = ln, Column = col\<rparr>, l))"

text \<open>
  The \<open>switch ch\<close> of \<open>NextToken\<close>, without the case of \<open>#\<close>: \<open>ln\<close> and \<open>col\<close> are the line and
  column before \<open>ch\<close> was read, \<open>l\<close> is the lexer after it.
\<close>

definition scanToken :: "unicode_tables \<Rightarrow> int \<Rightarrow> int \<Rightarrow> rune \<Rightarrow> Lexer \<Rightarrow> Token \<times> Lexer" where
  "scanToken u ln col ch l =
     (if ch = 0 then
        (if length (indentStack l) > 1
         then (\<lparr>Type = DEDENT, Lexeme = [], Line = ln, Column = col\<rparr>, l\<lparr>indentStack := tl (indentStack l)\<rparr>)
         else (\<lparr>Type = EOF, Lexeme = [], Line = ln, Column = col\<rparr>, l))
      else if ch = of_char (CHR 0x0A) then (\<lparr>Type = NEWLINE, Lexeme = [CHR 0x0A], Line = ln, Column = col\<rparr>, l)
      else if ch = of_char CHR ''='' then withEq l ln col (EQ, ''=='') (ASSIGN, ''='')
      else if ch = of_char CHR ''!'' then withEq l ln col (NOT_EQ, ''!='') (ILLEGAL, ''!'')
      else if ch = of_char CHR ''<'' then withEq l ln col (LTE, ''<='') (LT, ''<'')
      else if ch = of_char CHR ''>'' then withEq l ln col (GTE, ''>='') (GT, ''>'')
      else if ch = of_char CHR ''+'' then withEq l ln col (PLUS_ASSIGN, ''+='') (PLUS, ''+'')
      else if ch = of_char CHR ''-'' then withEq l ln col (MINUS_ASSIGN, ''-='') (MINUS, ''-'')
      else if ch = of_char CHR ''*'' then (\<lparr>Type = MULTIPLY, Lexeme = ''*'', Line = ln, Column = col\<rparr>, l)
      else if ch = of_char CHR ''/'' then (\<lparr>Type = DIVIDE, Lexeme = ''/'', Line = ln, Column = col\<rparr>, l)
      else if ch = of_char CHR ''%'' then (\<lparr>Type = MODULO, Lexeme = ''%'', Line = ln, Column = col\<rparr>, l)
      else if ch = of_char CHR '','' then (\<lparr>Type = COMMA, Lexeme = '','', Line = ln, Column = col\<rparr>, l)
      else if ch = of_char CHR '':'' then (\<lparr>Type = COLON, Lexeme = '':'', Line = ln, Column = col\<rparr>, l)
      else if ch = of_char CHR '';'' then (\<lparr>Type = SEMICOLON, Lexeme = '';'', Line = ln, Column = col\<rparr>, l)
      else if ch = of_char CHR ''('' then (\<lparr>Type = LPAREN, Lexeme = ''('', Line = ln, Column = col\<rparr>, l)
      else if ch = of_char CHR '')'' then (\<lparr>Type = RPAREN, Lexeme = '')'', Line = ln, Column = col\<rparr>, l)
      else if ch = of_char CHR ''['' then (\<lparr>Type = LBRACKET, Lexeme = ''['', Line = ln, Column = col\<rparr>, l)
      else if ch = of_char CHR '']'' then (\<lparr>Type = RBRACKET, Lexeme = '']'', Line = ln, Column = col\<rparr>, l)
      else if ch = of_char CHR ''{'' then (\<lparr>Type = LBRACE, Lexeme = ''{'', Line = ln, Column = col\<rparr>, l)
      else if ch = of_char CHR ''}'' then (\<lparr>Type = RBRACE, Lexeme = ''}'', Line = ln, Column = col\<rparr>, l)
      else if ch = of_char (CHR 0x22) \<or> ch = of_char (CHR 0x27) then
        (let (lexeme, l1) = readString ch l
         in (\<lparr>Type = STRING, Lexeme = lexeme, Line = ln, Column = col\<rparr>, l1))
      else if IsDigit u ch then
        (let ((lexeme, tokenType), l1) = readNumber u (l\<lparr>position := position l - 1, column := column l - 1\<rparr>)
         in (\<lparr>Type = tokenType, Lexeme = lexeme, Line = ln, Column = col\<rparr>, l1))
      else if IsLetter u ch \<or> ch = of_char CHR ''_'' then
        (let (lexeme, l1) = readIdentifier u (l\<lparr>position := position l - 1, column := column l - 1\<rparr>)
         in (\<lparr>Type = LookupIdent lexeme, Lexeme = lexeme, Line = ln, Column = col\<rparr>, l1))
      else (\<lparr>Type = ILLEGAL, Lexeme = utf8_encode ch, Line = ln, Column = col\<rparr>, l))"

lemma readChar_nonzero_less: "readChar l = (ch, l') \<Longrightarrow> ch \<noteq> 0 \<Longrightarrow> remaining l' < remaining l"
  using readChar_less [of l] by (cases "position l < length (src l)") (auto simp: readChar_def)

lemma skipWhitespace_remaining: "remaining (skipWhitespace l) \<le> remaining l"
proof (induction l rule: skipWhitespace.induct)
  case (1 l)
  show ?case
    using 1 readChar_le [of l] by (subst skipWhitespace.simps) (auto simp del: of_char_Char)
qed

lemma skipComment_remaining: "remaining (skipComment l) \<le> remaining l"
proof (induction l rule: skipComment.induct)
  case (1 l)
  show ?case
    using 1 readChar_le [of l] by (subst skipComment.simps) (auto simp del: of_char_Char)
qed

lemma indentLoop_remaining: "remaining (snd (indentLoop n l)) \<le> remaining l"
proof (induction n l rule: indentLoop.induct)
  case (1 n l)
  show ?case
    using 1 readChar_le [of l] by (subst indentLoop.simps) (auto simp del: of_char_Char)
qed

lemma handleIndentation_nil_remaining:
  "handleIndentation l = Some (None, l1) \<Longrightarrow> remaining l1 \<le> remaining l"
  using indentLoop_remaining [of 0 "l\<lparr>atLineStart := False\<rparr>"]
  by (auto simp: handleIndentation_def Let_def remaining_def
           split: if_splits prod.splits list.splits)

function NextToken :: "unicode_tables \<Rightarrow> Lexer \<Rightarrow> (Token \<times> Lexer) option" where
  "NextToken u l =
     (case handleIndentation l of
        None \<Rightarrow> None
      | Some (Some token, l1) \<Rightarrow> Some (token, l1)
      | Some (None, l1) \<Rightarrow>
          (let l2 = skipWhitespace l1;
               (ch, l3) = readChar l2
           in if ch = of_char CHR ''#'' then NextToken u (skipComment l3)
              else Some (scanToken u (line l2) (column l2) ch l3)))"
  by pat_completeness auto
termination
proof (relation "measure (\<lambda>(u, l). remaining l)", goal_cases)
  case 1
  show ?case by simp
next
  case (2 u l x opt l1 l2 r ch l3)
  have "remaining (skipComment l3) \<le> remaining l3"
    by (rule skipComment_remaining)
  moreover have "remaining l3 < remaining l2"
    using 2 by (intro readChar_nonzero_less [of l2 ch l3]) auto
  moreover have "remaining l2 \<le> remaining l1"
    using 2 by (simp add: skipWhitespace_remaining)
  moreover have "remaining l1 \<le> remaining l"
    using 2 by (intro handleIndentation_nil_remaining) auto
  ultimately show ?case by simp
qed

declare NextToken.simps [simp del]

text \<open>
  \<open>advanced l l'\<close>: the lexer \<open>l'\<close> is \<open>l\<close> after reading on in the same source, with the
  indentation stack and the pending DEDENTs untouched.
\<close>

definition advanced :: "Lexer \<Rightarrow> Lexer \<Rightarrow> bool" where
  "advanced l l' \<longleftrightarrow>
     src l' = src l \<and> indentStack l' = indentStack l \<and> pendingDedents l' = pendingDedents l
     \<and> remaining l' \<le> remaining l"

text \<open>The bound on the tokens still to come: it falls with every token but the last.\<close>

definition budget :: "Lexer \<Rightarrow> nat" where
  "budget l = remaining l + length (indentStack l) + nat (pendingDedents l)"

lemma advanced_refl: "advanced l l"
  by (simp add: advanced_def)

lemma advanced_trans: "advanced l l1 \<Longrightarrow> advanced l1 l2 \<Longrightarrow> advanced l l2"
  by (simp add: advanced_def)

lemma advanced_remaining: "advanced l l' \<Longrightarrow> remaining l' \<le> remaining l"
  by (simp add: advanced_def)

lemma readChar_advanced: "advanced l (snd (readChar l))"
  using readChar_le [of l] by (simp add: advanced_def readChar_def Let_def)

lemma skipWhitespace_advanced: "advanced l (skipWhitespace l)"
proof (induction l rule: skipWhitespace.induct)
  case (1 l)
  show ?case
    using 1 readChar_advanced [of l]
    by (subst skipWhitespace.simps) (auto simp del: of_char_Char intro: advanced_trans advanced_refl)
qed

lemma skipComment_advanced: "advanced l (skipComment l)"
proof (induction l rule: skipComment.induct)
  case (1 l)
  show ?case
    using 1 readChar_advanced [of l]
    by (subst skipComment.simps) (auto simp del: of_char_Char intro: advanced_trans advanced_refl)
qed

lemma indentLoop_advanced: "advanced l (snd (indentLoop n l))"
proof (induction n l rule: indentLoop.induct)
  case (1 n l)
  show ?case
    using 1 readChar_advanced [of l]
    by (subst indentLoop.simps) (auto simp del: of_char_Char intro: advanced_trans advanced_refl)
qed

lemma indentLoop_consumes:
  "n < fst (indentLoop n l) \<Longrightarrow> remaining (snd (indentLoop n l)) < remaining l"
proof (induction n l rule: indentLoop.induct)
  case (1 n l)
  have step: "peekChar l \<noteq> 0 \<Longrightarrow> remaining (snd (indentLoop k (snd (readChar l)))) < remaining l" for k
    using advanced_remaining [OF indentLoop_advanced, of k "snd (readChar l)"] readChar_peek_less [of l]
    by simp
  show ?case
    using "1.prems" step by (subst indentLoop.simps, subst (asm) indentLoop.simps) (auto split: if_splits)
qed

lemma readStringLoop_advanced: "advanced l (snd (readStringLoop quote result l))"
proof (induction quote result l rule: readStringLoop.induct)
  case (1 quote result l)
  have two: "advanced l (snd (readChar (snd (readChar l))))"
    by (rule advanced_trans [OF readChar_advanced readChar_advanced])
  show ?case
    using 1 two readChar_advanced [of l]
    by (subst readStringLoop.simps) (auto simp del: of_char_Char intro: advanced_trans advanced_refl)
qed

lemma readString_advanced: "advanced l (snd (readString quote l))"
  using readStringLoop_advanced [of l quote "[]"]
        readChar_advanced [of "snd (readStringLoop quote [] l)"]
  by (auto simp: readString_def Let_def split: prod.splits intro: advanced_trans)

lemma readNumberLoop_advanced: "advanced l (snd (readNumberLoop u d l))"
proof (induction u d l rule: readNumberLoop.induct)
  case (1 u d l)
  show ?case
    using 1 readChar_advanced [of l]
    by (subst readNumberLoop.simps) (auto simp del: of_char_Char intro: advanced_trans advanced_refl)
qed

lemma IsDigit_nonzero: "IsDigit u ch \<Longrightarrow> ch \<noteq> 0"
  by (auto simp: IsDigit_def split: if_splits)

lemma IsLetter_nonzero: "IsLetter u ch \<Longrightarrow> ch \<noteq> 0"
  by (auto simp: IsLetter_def split: if_splits)

lemma readNumber_advanced: "advanced l (snd (readNumber u l))"
  using readNumberLoop_advanced [of l u False]
  by (auto simp: readNumber_def Let_def split: prod.splits)

lemma readNumber_consumes:
  assumes "IsDigit u (peekChar l)"
  shows "remaining (snd (readNumber u l)) < remaining l"
proof -
  have "readNumberLoop u False l = readNumberLoop u False (snd (readChar l))"
    using assms by (subst readNumberLoop.simps) simp
  then have "snd (readNumber u l) = snd (readNumberLoop u False (snd (readChar l)))"
    by (simp add: readNumber_def Let_def split: prod.splits)
  moreover have "remaining (snd (readNumberLoop u False (snd (readChar l)))) \<le> remaining (snd (readChar l))"
    by (rule advanced_remaining [OF readNumberLoop_advanced])
  moreover have "remaining (snd (readChar l)) < remaining l"
    using assms by (intro readChar_peek_less IsDigit_nonzero)
  ultimately show ?thesis by simp
qed

lemma readIdentifierLoop_advanced: "advanced l (readIdentifierLoop u l)"
proof (induction u l rule: readIdentifierLoop.induct)
  case (1 u l)
  show ?case
    using 1 readChar_advanced [of l]
    by (subst readIdentifierLoop.simps) (auto simp del: of_char_Char intro: advanced_trans advanced_refl)
qed

lemma readIdentifier_advanced: "advanced l (snd (readIdentifier u l))"
  using readIdentifierLoop_advanced [of l u]
  by (auto simp: readIdentifier_def Let_def advanced_refl)

lemma readIdentifier_consumes:
  assumes "IsLetter u (peekChar l) \<or> peekChar l = of_char CHR ''_''"
  shows "remaining (snd (readIdentifier u l)) < remaining l"
proof -
  have nz: "peekChar l \<noteq> 0"
    using assms IsLetter_nonzero by auto
  have "readIdentifierLoop u l = readIdentifierLoop u (snd (readChar l))"
    using assms by (subst readIdentifierLoop.simps) (auto simp del: of_char_Char)
  then have "snd (readIdentifier u l) = readIdentifierLoop u (snd (readChar l))"
    using assms by (auto simp: readIdentifier_def Let_def)
  moreover have "remaining (readIdentifierLoop u (snd (readChar l))) \<le> remaining (snd (readChar l))"
    by (rule advanced_remaining [OF readIdentifierLoop_advanced])
  moreover have "remaining (snd (readChar l)) < remaining l"
    using nz by (rule readChar_peek_less)
  ultimately show ?thesis by simp
qed

lemma withEq_advanced: "advanced l (snd (withEq l ln col two one))"
  using readChar_advanced [of l] by (simp add: withEq_def advanced_refl)

lemma withEq_token:
  "withEq l ln col two one = (tok, l') \<Longrightarrow> fst two \<notin> {INDENT, DEDENT, EOF} \<Longrightarrow>
   fst one \<notin> {INDENT, DEDENT, EOF} \<Longrightarrow> advanced l l' \<and> Type tok \<notin> {INDENT, DEDENT, EOF}"
  using readChar_advanced [of l] by (auto simp: withEq_def advanced_refl split: if_splits)

text \<open>Un-reading a character that is not a line feed gives back the lexer before it was read.\<close>

lemma unread:
  assumes "readChar l = (ch, l')" "ch \<noteq> 0" "ch \<noteq> of_char (CHR 0x0A)"
  shows "l'\<lparr>position := position l' - 1, column := column l' - 1\<rparr> = l" "peekChar l = ch"
  using assms by (auto simp: readChar_def peekChar_def Let_def split: if_splits)

lemma LookupIdent_cases:
  "LookupIdent s \<in> {IDENT, IF, ELIF, ELSE, WHILE, FOR, IN, DEF, RETURN, PRINT, TRUE, FALSE, NONE,
                     AND', OR', NOT', RANGE, PASS}"
proof (cases "map_of keywords' s")
  case None
  then show ?thesis by (simp add: LookupIdent_def)
next
  case (Some t)
  then have "(s, t) \<in> set keywords'"
    by (rule map_of_SomeD)
  then show ?thesis
    using Some by (auto simp: LookupIdent_def keywords'_def)
qed

text \<open>
  What the \<open>switch\<close> does to the lexer: at a character other than NUL it reads on and the
  token is none of INDENT, DEDENT and EOF; at NUL it pops one level and gives DEDENT if the
  indentation stack has more than one level, and gives EOF otherwise.
\<close>

lemma scanToken_nonzero:
  assumes "readChar l2 = (ch, l3)" "ch \<noteq> 0" "scanToken u ln col ch l3 = (tok, l')"
  shows "advanced l2 l' \<and> remaining l' < remaining l2 \<and> Type tok \<notin> {INDENT, DEDENT, EOF}"
proof -
  have l3: "advanced l2 l3" "remaining l3 < remaining l2"
    using assms(1,2) readChar_advanced [of l2] readChar_nonzero_less [of l2 ch l3] by auto
  have adv: "advanced l3 l' \<Longrightarrow> advanced l2 l' \<and> remaining l' < remaining l2"
    using l3 by (auto simp: advanced_def)
  show ?thesis
  proof (cases "ch = 10")
    case True
    then show ?thesis
      using assms(3) adv advanced_refl [of l3] by (auto simp: scanToken_def)
  next
    case nonl: False
    show ?thesis
    proof (cases "ch \<in> {61, 33, 60, 62, 43, 45}")
      case True
      then have "advanced l3 l' \<and> Type tok \<notin> {INDENT, DEDENT, EOF}"
        using assms(3) by - (elim insertE emptyE; simp add: scanToken_def; drule withEq_token; simp)
      then show ?thesis
        using adv by simp
    next
      case noeq: False
      show ?thesis
      proof (cases "ch \<in> {42, 47, 37, 44, 58, 59, 40, 41, 91, 93, 123, 125}")
        case True
        then show ?thesis
          using assms(2,3) adv advanced_refl [of l3] by (auto simp: scanToken_def)
      next
        case nosingle: False
        show ?thesis
        proof (cases "ch = 34 \<or> ch = 39")
          case True
          then show ?thesis
            using assms(2,3) adv readString_advanced [of l3 ch]
            by (auto simp: scanToken_def split: prod.splits)
        next
          case nostr: False
          let ?l = "l3\<lparr>position := position l3 - 1, column := column l3 - 1\<rparr>"
          have unrd: "?l = l2" "peekChar l2 = ch"
            using unread [OF assms(1,2)] nonl by auto
          have rest: "scanToken u ln col ch l3 =
                       (if IsDigit u ch then
                          (let ((lexeme, tokenType), l1) = readNumber u ?l
                           in (\<lparr>Type = tokenType, Lexeme = lexeme, Line = ln, Column = col\<rparr>, l1))
                        else if IsLetter u ch \<or> ch = 95 then
                          (let (lexeme, l1) = readIdentifier u ?l
                           in (\<lparr>Type = LookupIdent lexeme, Lexeme = lexeme, Line = ln, Column = col\<rparr>, l1))
                        else (\<lparr>Type = ILLEGAL, Lexeme = utf8_encode ch, Line = ln, Column = col\<rparr>, l3))"
            using assms(2) nonl noeq nosingle nostr by (simp add: scanToken_def)
          show ?thesis
          proof (cases "IsDigit u ch")
            case True
            then have "tok = \<lparr>Type = snd (fst (readNumber u l2)), Lexeme = fst (fst (readNumber u l2)), Line = ln, Column = col\<rparr>"
                      "l' = snd (readNumber u l2)"
              using assms(3) unrd(1) unfolding rest by (auto split: prod.splits)
            moreover have "snd (fst (readNumber u l2)) \<in> {INT', FLOAT}"
              by (auto simp: readNumber_def Let_def split: prod.splits)
            ultimately show ?thesis
              using readNumber_advanced [of l2 u] readNumber_consumes [of u l2] True unrd(2) by auto
          next
            case nodigit: False
            show ?thesis
            proof (cases "IsLetter u ch \<or> ch = 95")
              case True
              then have "tok = \<lparr>Type = LookupIdent (fst (readIdentifier u l2)), Lexeme = fst (readIdentifier u l2), Line = ln, Column = col\<rparr>"
                        "l' = snd (readIdentifier u l2)"
                using assms(3) unrd(1) nodigit unfolding rest by (auto split: prod.splits)
              then show ?thesis
                using readIdentifier_advanced [of l2 u] readIdentifier_consumes [of u l2] True unrd(2)
                      LookupIdent_cases [of "fst (readIdentifier u l2)"]
                by auto
            next
              case False
              then show ?thesis
                using assms(3) adv advanced_refl [of l3] nodigit unfolding rest by auto
            qed
          qed
        qed
      qed
    qed
  qed
qed

lemma scanToken_zero:
  "scanToken u ln col 0 l3 =
     (if length (indentStack l3) > 1
      then (\<lparr>Type = DEDENT, Lexeme = [], Line = ln, Column = col\<rparr>, l3\<lparr>indentStack := tl (indentStack l3)\<rparr>)
      else (\<lparr>Type = EOF, Lexeme = [], Line = ln, Column = col\<rparr>, l3))"
  by (simp add: scanToken_def)

lemma dedentLoop_count:
  "dedentLoop stack lvl c = (stack', c') \<Longrightarrow>
     int (length stack') + c' = int (length stack) + c \<and> c \<le> c' \<and> (stack \<noteq> [] \<longrightarrow> stack' \<noteq> [])
     \<and> (c' = c \<longrightarrow> stack' = stack)"
  by (induction stack lvl c rule: dedentLoop.induct) (auto split: if_splits)

text \<open>What \<open>handleIndentation\<close> does to the lexer, by the token it returns.\<close>

lemma handleIndentation_nil:
  assumes "handleIndentation l = Some (None, l1)"
  shows "advanced l l1 \<and> pendingDedents l \<le> 0"
proof -
  have "advanced (l\<lparr>atLineStart := False\<rparr>) (snd (indentLoop 0 (l\<lparr>atLineStart := False\<rparr>)))"
    by (rule indentLoop_advanced)
  then have "advanced l (snd (indentLoop 0 (l\<lparr>atLineStart := False\<rparr>)))"
    by (auto simp: advanced_def remaining_def)
  then show ?thesis
    using assms
    by (auto simp: handleIndentation_def Let_def advanced_refl simp del: of_char_Char
             split: if_splits prod.splits list.splits)
qed

lemma handleIndentation_token:
  assumes "handleIndentation l = Some (Some tok, l1)"
  shows "src l1 = src l \<and> budget l1 < budget l
         \<and> (indentStack l \<noteq> [] \<longrightarrow> indentStack l1 \<noteq> [])
         \<and> (Type tok = ILLEGAL \<and> Lexeme tok = indentation_error \<and> pendingDedents l1 = pendingDedents l
              \<or> Type tok = INDENT \<and> length (indentStack l1) = length (indentStack l) + 1
                  \<and> pendingDedents l1 = pendingDedents l \<and> pendingDedents l \<le> 0
              \<or> Type tok = DEDENT \<and> 0 \<le> pendingDedents l1
                  \<and> int (length (indentStack l1)) + pendingDedents l1
                      = int (length (indentStack l)) + max 0 (pendingDedents l) - 1)"
proof (cases "pendingDedents l > 0")
  case True
  then show ?thesis
    using assms by (auto simp: handleIndentation_def budget_def remaining_def)
next
  case False
  let ?l0 = "l\<lparr>atLineStart := False\<rparr>"
  obtain lvl la where loop: "indentLoop 0 ?l0 = (lvl, la)"
    by (cases "indentLoop 0 ?l0")
  have start: "atLineStart l"
    using assms False by (auto simp: handleIndentation_def split: if_splits)
  have adv: "advanced ?l0 la"
    using indentLoop_advanced [of ?l0 0] loop by simp
  have rem0: "remaining ?l0 < remaining l"
    using start by (simp add: remaining_def)
  have rem: "remaining la < remaining l"
    using adv rem0 by (simp add: advanced_def)
  have same: "src la = src l" "indentStack la = indentStack l" "pendingDedents la = pendingDedents l"
    using adv by (simp_all add: advanced_def)
  have consumed: "0 < lvl \<Longrightarrow> remaining la + 2 \<le> remaining l"
    using indentLoop_consumes [of 0 ?l0] loop rem0 by simp
  obtain cur below where stack: "indentStack l = cur # below"
    using assms False start loop same
    by (cases "indentStack l") (auto simp: handleIndentation_def Let_def simp del: of_char_Char split: if_splits)
  consider (indent) "lvl > cur" | (dedent) "lvl < cur"
    using assms False start loop same stack
    by (cases "lvl > cur"; cases "lvl < cur")
       (auto simp: handleIndentation_def Let_def simp del: of_char_Char split: if_splits)
  then show ?thesis
  proof cases
    case indent
    then have "tok = \<lparr>Type = INDENT, Lexeme = [], Line = line la, Column = column l\<rparr>"
              "l1 = la\<lparr>indentStack := lvl # indentStack la\<rparr>"
      using assms False start loop same stack
      by (auto simp: handleIndentation_def Let_def simp del: of_char_Char split: if_splits)
    then show ?thesis
      using consumed indent same False by (auto simp: budget_def remaining_def)
  next
    case dedent
    obtain stack' c' where pops: "dedentLoop (indentStack la) lvl 0 = (stack', c')"
      by (cases "dedentLoop (indentStack la) lvl 0")
    have cnt: "int (length stack') + c' = int (length (indentStack l))" "0 \<le> c'" "stack' \<noteq> []"
              "c' = 0 \<longrightarrow> stack' = indentStack l"
      using dedentLoop_count [OF pops] same stack by auto
    show ?thesis
    proof (cases "hd stack' \<noteq> lvl")
      case True
      then have "Type tok = ILLEGAL" "Lexeme tok = indentation_error" "l1 = la\<lparr>indentStack := stack'\<rparr>"
        using assms False start loop same stack dedent pops
        by (auto simp: handleIndentation_def Let_def simp del: of_char_Char split: if_splits)
      then show ?thesis
        using cnt rem same by (auto simp: budget_def remaining_def)
    next
      case match: False
      then have res: "Type tok = DEDENT" "l1 = la\<lparr>indentStack := stack', pendingDedents := c' - 1\<rparr>"
        using assms False start loop same stack dedent pops cnt(3)
        by (auto simp: handleIndentation_def Let_def simp del: of_char_Char split: if_splits)
      have "c' \<noteq> 0"
        using cnt(4) match dedent stack by auto
      then have "1 \<le> c'"
        using cnt(2) by simp
      then show ?thesis
        using res cnt rem same False by (auto simp: budget_def remaining_def)
    qed
  qed
qed

lemma NextToken_budget:
  "NextToken u l = Some (tok, l') \<Longrightarrow> Type tok \<noteq> EOF \<Longrightarrow> budget l' < budget l"
proof (induction u l rule: NextToken.induct)
  case (1 u l)
  show ?case
  proof (cases "handleIndentation l")
    case None
    then show ?thesis
      using "1.prems" by (subst (asm) NextToken.simps) simp
  next
    case (Some r)
    obtain opt l1 where r: "r = (opt, l1)"
      by (cases r)
    show ?thesis
    proof (cases opt)
      case (Some t)
      then have "tok = t" "l' = l1"
        using "1.prems" \<open>handleIndentation l = Some r\<close> r by (subst (asm) NextToken.simps, simp)+
      then show ?thesis
        using handleIndentation_token [of l tok l'] \<open>handleIndentation l = Some r\<close> r Some by simp
    next
      case None
      have hi: "handleIndentation l = Some (None, l1)"
        using \<open>handleIndentation l = Some r\<close> r None by simp
      let ?l2 = "skipWhitespace l1"
      obtain ch l3 where rc: "readChar ?l2 = (ch, l3)"
        by (cases "readChar ?l2")
      have a2: "advanced l ?l2"
        using handleIndentation_nil [OF hi] skipWhitespace_advanced [of l1] by (auto intro: advanced_trans)
      have a3: "advanced ?l2 l3"
        using readChar_advanced [of ?l2] rc by simp
      have le: "advanced a b \<Longrightarrow> budget b \<le> budget a" for a b
        by (simp add: advanced_def budget_def)
      show ?thesis
      proof (cases "ch = of_char CHR ''#''")
        case True
        have "NextToken u (skipComment l3) = Some (tok, l')"
          using "1.prems"(1) hi rc True by (subst (asm) NextToken.simps) (simp add: Let_def)
        then have "budget l' < budget (skipComment l3)"
          using "1.IH" [OF hi refl refl refl refl rc [symmetric] True] "1.prems"(2) hi by simp
        then show ?thesis
          using le [OF a2] le [OF a3] le [OF skipComment_advanced [of l3]] by simp
      next
        case False
        then have st: "scanToken u (line ?l2) (column ?l2) ch l3 = (tok, l')"
          using "1.prems"(1) hi rc by (subst (asm) NextToken.simps) (simp add: Let_def)
        show ?thesis
        proof (cases "ch = 0")
          case True
          then have "l' = l3\<lparr>indentStack := tl (indentStack l3)\<rparr> \<and> length (indentStack l3) > 1"
            using st "1.prems"(2) by (auto simp: scanToken_zero split: if_splits)
          then have "budget l' < budget l3"
            by (auto simp: budget_def remaining_def)
          then show ?thesis
            using le [OF a2] le [OF a3] by simp
        next
          case nz: False
          have "advanced ?l2 l' \<and> remaining l' < remaining ?l2"
            using scanToken_nonzero [OF rc nz st] by simp
          then have "budget l' < budget ?l2"
            by (simp add: advanced_def budget_def)
          then show ?thesis
            using le [OF a2] by simp
        qed
      qed
    qed
  qed
qed

text \<open>\<open>AllTokens\<close>: the tokens up to and including EOF.  A panic of \<open>NextToken\<close> ends it.\<close>

function AllTokens :: "unicode_tables \<Rightarrow> Lexer \<Rightarrow> Token list option" where
  "AllTokens u l =
     (case NextToken u l of
        None \<Rightarrow> None
      | Some (token, l') \<Rightarrow>
          if Type token = EOF then Some [token]
          else map_option ((#) token) (AllTokens u l'))"
  by pat_completeness auto
termination
  by (relation "measure (\<lambda>(u, l). budget l)") (auto intro: NextToken_budget)

declare AllTokens.simps [simp del]
text \<open>
  The evaluations below run programs that use no floating-point primitive.  For them the
  host is instantiated with primitives that return the bit pattern 0.
\<close>

definition host0 :: host where
  "host0 = \<lparr>float_add = (\<lambda>a b. 0), float_sub = (\<lambda>a b. 0), float_mul = (\<lambda>a b. 0),
     float_div = (\<lambda>a b. 0), float_to_int = (\<lambda>a. 0), float_fmt_g = (\<lambda>a. [])\<rparr>"

text \<open>Scenario 9 of the specification: \<open>x = 42; y = x + 8; y\<close>, and its compiled form.\<close>

definition scenario9 :: "Stmt list" where
  "scenario9 = [AssignStmt (Name ''x'') (Num (GoInt 42)),
                AssignStmt (Name ''y'') (BinaryOp (Name ''x'') ''+'' (Num (GoInt 8))),
                ExprStmt (Name ''y'')]"

definition scenario9_code :: CodeObject where
  "scenario9_code = CodeObject
     [\<lparr>Op = OpLoadConst, Arg = 0\<rparr>, \<lparr>Op = OpStoreName, Arg = 0\<rparr>, \<lparr>Op = OpLoadName, Arg = 0\<rparr>,
      \<lparr>Op = OpLoadConst, Arg = 1\<rparr>, \<lparr>Op = OpBinaryAdd, Arg = 0\<rparr>, \<lparr>Op = OpStoreName, Arg = 1\<rparr>,
      \<lparr>Op = OpLoadName, Arg = 1\<rparr>, \<lparr>Op = OpReturnValue, Arg = 0\<rparr>]
     [PyInt 42, PyInt 8] [''x'', ''y''] [] 0 ''<module>'' ''<module>'' 1"

text \<open>\<open>print "hello"\<close>.\<close>

definition print_hello :: "Stmt list" where
  "print_hello = [PrintStmt [Str ''hello'']]"

definition print_hello_code :: CodeObject where
  "print_hello_code = CodeObject
     [\<lparr>Op = OpLoadConst, Arg = 0\<rparr>, \<lparr>Op = OpPrintExpr, Arg = 0\<rparr>, \<lparr>Op = OpPrintNewline, Arg = 0\<rparr>,
      \<lparr>Op = OpLoadConst, Arg = 1\<rparr>, \<lparr>Op = OpReturnValue, Arg = 0\<rparr>]
     [PyString ''hello'', PyNone] [] [] 0 ''<module>'' ''<module>'' 1"

text \<open>\<open>print 1, "a", 2\<close> followed by a bare \<open>print\<close>.\<close>

definition print_three :: "Stmt list" where
  "print_three = [PrintStmt [Num (GoInt 1), Str ''a'', Num (GoInt 2)], PrintStmt []]"

definition print_three_code :: CodeObject where
  "print_three_code = CodeObject
     [\<lparr>Op = OpLoadConst, Arg = 0\<rparr>, \<lparr>Op = OpPrintExpr, Arg = 0\<rparr>,
      \<lparr>Op = OpLoadConst, Arg = 1\<rparr>, \<lparr>Op = OpPrintExpr, Arg = 0\<rparr>,
      \<lparr>Op = OpLoadConst, Arg = 2\<rparr>, \<lparr>Op = OpPrintExpr, Arg = 0\<rparr>,
      \<lparr>Op = OpLoadConst, Arg = 1\<rparr>, \<lparr>Op = OpPrintExpr, Arg = 0\<rparr>,
      \<lparr>Op = OpLoadConst, Arg = 3\<rparr>, \<lparr>Op = OpPrintExpr, Arg = 0\<rparr>,
      \<lparr>Op = OpPrintNewline, Arg = 0\<rparr>, \<lparr>Op = OpPrintNewline, Arg = 0\<rparr>,
      \<lparr>Op = OpLoadConst, Arg = 4\<rparr>, \<lparr>Op = OpReturnValue, Arg = 0\<rparr>]
     [PyInt 1, PyString '' '', PyString ''a'', PyInt 2, PyNone] [] [] 0 ''<module>'' ''<module>'' 1"

text \<open>\<open>for i in 42: pass\<close>.\<close>

definition for_42 :: "Stmt list" where
  "for_42 = [ForStmt (Name ''i'') (Num (GoInt 42)) [PassStmt]]"

definition for_42_code :: CodeObject where
  "for_42_code = CodeObject
     [\<lparr>Op = OpLoadConst, Arg = 0\<rparr>, \<lparr>Op = OpGetIter, Arg = 0\<rparr>, \<lparr>Op = OpForIter, Arg = 5\<rparr>,
      \<lparr>Op = OpStoreName, Arg = 0\<rparr>, \<lparr>Op = OpJumpAbsolute, Arg = 2\<rparr>,
      \<lparr>Op = OpLoadConst, Arg = 1\<rparr>, \<lparr>Op = OpReturnValue, Arg = 0\<rparr>]
     [PyInt 42, PyNone] [''i''] [] 0 ''<module>'' ''<module>'' 1"

text \<open>\<open>False and undefined_name\<close>, and \<open>undefined_name\<close> alone.\<close>

definition and_example :: Expr where
  "and_example = BoolOp ''and'' [NameConstant (GoBool False), Name ''undefined_name'']"

definition and_example_code :: CodeObject where
  "and_example_code = CodeObject
     [\<lparr>Op = OpLoadConst, Arg = 0\<rparr>, \<lparr>Op = OpDupTop, Arg = 0\<rparr>, \<lparr>Op = OpPopJumpIfFalse, Arg = 5\<rparr>,
      \<lparr>Op = OpPopTop, Arg = 0\<rparr>, \<lparr>Op = OpLoadName, Arg = 0\<rparr>, \<lparr>Op = OpReturnValue, Arg = 0\<rparr>]
     [PyBool False] [''undefined_name''] [] 0 ''<module>'' ''<module>'' 1"

definition undefined_name_code :: CodeObject where
  "undefined_name_code = CodeObject
     [\<lparr>Op = OpLoadName, Arg = 0\<rparr>, \<lparr>Op = OpReturnValue, Arg = 0\<rparr>]
     [] [''undefined_name''] [] 0 ''<module>'' ''<module>'' 1"






text \<open>A frame of a code object with a given instruction pointer and value stack.\<close>

definition frame_at :: "CodeObject \<Rightarrow> int \<Rightarrow> value list \<Rightarrow> Frame" where
  "frame_at code ip st = (NewFrame code)\<lparr>IP := ip, Stack := st\<rparr>"



text \<open>Range tables with no digit and no letter beyond U+00FF, for sources in ASCII.\<close>

definition latin1 :: unicode_tables where
  "latin1 = \<lparr>digit_beyond_latin1 = (\<lambda>r. False), letter_beyond_latin1 = (\<lambda>r. False)\<rparr>"

text \<open>
  A block that is closed by the end of the input only:

  \<^verbatim>\<open>if x:\<close>
  \<^verbatim>\<open>    y\<close>
\<close>

definition open_block_source :: string where
  "open_block_source = ''if x:'' @ [CHR 0x0A] @ ''    y'' @ [CHR 0x0A]"

text \<open>
  A line indented by eight columns, then a line indented by four: no enclosing block has
  that indentation.

  \<^verbatim>\<open>if x:\<close>
  \<^verbatim>\<open>        a\<close>
  \<^verbatim>\<open>    b\<close>
\<close>

definition bad_dedent_source :: string where
  "bad_dedent_source = ''if x:'' @ [CHR 0x0A] @ ''        a'' @ [CHR 0x0A] @ ''    b'' @ [CHR 0x0A]"

text \<open>
  A module with a statement after an \<open>if\<close> with an \<open>else\<close>, and its compiled form:

  \<^verbatim>\<open>if True:\<close>
  \<^verbatim>\<open>    x = 1\<close>
  \<^verbatim>\<open>else:\<close>
  \<^verbatim>\<open>    x = 2\<close>
  \<^verbatim>\<open>x\<close>
\<close>

definition if_else_module :: "Stmt list" where
  "if_else_module =
     [IfStmt (NameConstant (GoBool True))
        [AssignStmt (Name ''x'') (Num (GoInt 1))]
        [AssignStmt (Name ''x'') (Num (GoInt 2))],
      ExprStmt (Name ''x'')]"

definition if_else_code :: CodeObject where
  "if_else_code = CodeObject
     [\<lparr>Op = OpLoadConst, Arg = 0\<rparr>, \<lparr>Op = OpPopJumpIfFalse, Arg = 5\<rparr>,
      \<lparr>Op = OpLoadConst, Arg = 1\<rparr>, \<lparr>Op = OpStoreName, Arg = 0\<rparr>,
      \<lparr>Op = OpJumpForward, Arg = 7\<rparr>, \<lparr>Op = OpLoadConst, Arg = 2\<rparr>,
      \<lparr>Op = OpStoreName, Arg = 0\<rparr>, \<lparr>Op = OpLoadName, Arg = 0\<rparr>,
      \<lparr>Op = OpReturnValue, Arg = 0\<rparr>]
     [PyBool True, PyInt 1, PyInt 2] [''x''] [] 0 ''<module>'' ''<module>'' 1"



section \<open>Notions used in the proofs\<close>

text \<open>A compiler state extends another when its instruction list has the other's as a
  prefix; a compilation step extends when every successful run of it does.\<close>

definition extends :: "Compiler \<Rightarrow> Compiler \<Rightarrow> bool" where
  "extends c c' = (\<exists>code. instructions c' = instructions c @ code)"

definition step_extends :: "compile_step \<Rightarrow> bool" where
  "step_extends s = (\<forall>c c'. s c = Inr c' \<longrightarrow> extends c c')"


text \<open>The number of tokens of one type in a token stream.\<close>

definition count_type :: "TokenType \<Rightarrow> Token list \<Rightarrow> nat" where
  "count_type ty ts = length (filter (\<lambda>t. Type t = ty) ts)"

text \<open>The token that \<open>handleIndentation\<close> returns for an indentation no enclosing block has.\<close>

definition is_indentation_error :: "Token \<Rightarrow> bool" where
  "is_indentation_error t \<longleftrightarrow> Type t = ILLEGAL \<and> Lexeme t = indentation_error"

text \<open>
  The DEDENT tokens the lexer owes: one for each level above the bottom of the indentation
  stack, and the pending ones.
\<close>

definition owed :: "Lexer \<Rightarrow> int" where
  "owed l = int (length (indentStack l)) - 1 + pendingDedents l"

text \<open>The Unicode scalar values: the code points that UTF-8 encodes.\<close>

definition scalar_value :: "rune \<Rightarrow> bool" where
  "scalar_value r \<longleftrightarrow> r \<le> 0x10FFFF \<and> \<not> (0xD800 \<le> r \<and> r \<le> 0xDFFF)"


text \<open>Two compiler states with the same local-names map and the same scope depth.\<close>

definition same_locals :: "Compiler \<Rightarrow> Compiler \<Rightarrow> bool" where
  "same_locals c c' \<longleftrightarrow> varnameMap c' = varnameMap c \<and> scopeDepth c' = scopeDepth c"




section \<open>Auxiliary facts\<close>

lemma bind_err_Inr: "(bind_err m f = Inr y) = (\<exists>x. m = Inr x \<and> f x = Inr y)"
  by (cases m) auto

lemmas run_simps = Run_def NewFrame_def NewVM_def index_of_def push_continue_def push_def pop_def
  continue_def load_name_def store_name_def exec_binary_def binaryOp_def builtins_def peek_def
  quoted_def frame_at_def Let_def

section \<open>Compiling an expression only appends instructions\<close>

lemma step_extendsD: "step_extends s \<Longrightarrow> s c = Inr c' \<Longrightarrow> extends c c'"
  by (simp add: step_extends_def)

lemma extends_refl [simp]: "extends c c"
  by (simp add: extends_def)

lemma extends_trans: "extends a b \<Longrightarrow> extends b c \<Longrightarrow> extends a c"
  by (auto simp: extends_def)

lemma extends_emit [simp]: "extends c (emit c op a)"
  by (simp add: extends_def emit_def)

lemma extends_emit_const [simp]: "extends c (emit_const h c v)"
  by (auto simp: extends_def emit_const_def addConstant_def emit_def split: option.splits)

lemma extends_emit_name [simp]: "extends c (emit_name c op name)"
  by (auto simp: extends_def emit_name_def addName_def emit_def split: option.splits)

lemma extends_emit_varname [simp]: "extends c (emit_varname c op name)"
  by (auto simp: extends_def emit_varname_def addVarname_def emit_def split: option.splits)

lemma extends_compileName [simp]: "extends c (compileName c ident)"
  by (simp add: compileName_def)

lemma extends_emit_after: "extends a b \<Longrightarrow> extends a (emit b op x)"
  by (rule extends_trans [OF _ extends_emit])

lemma extends_length: "extends c c' \<Longrightarrow> length (instructions c) \<le> length (instructions c')"
  by (auto simp: extends_def)

lemma step_extends_compileExprs:
  "\<forall>s \<in> set ss. step_extends s \<Longrightarrow> step_extends (compileExprs ss)"
proof (induction ss)
  case Nil
  then show ?case by (simp add: step_extends_def)
next
  case (Cons s ss)
  then have s: "step_extends s" and ss: "step_extends (compileExprs ss)" by simp_all
  show ?case
    unfolding step_extends_def
  proof (intro allI impI)
    fix c c' assume "compileExprs (s # ss) c = Inr c'"
    then obtain c1 where c1: "s c = Inr c1" and c': "compileExprs ss c1 = Inr c'"
      by (cases "s c") auto
    show "extends c c'"
      by (rule extends_trans [OF step_extendsD [OF s c1] step_extendsD [OF ss c']])
  qed
qed

lemma step_extends_compileCompareRest:
  "\<forall>s \<in> set rights. step_extends s \<Longrightarrow> step_extends (compileCompareRest ops rights)"
proof (induction ops arbitrary: rights)
  case Nil
  then show ?case by (simp add: step_extends_def)
next
  case (Cons op ops)
  show ?case
    unfolding step_extends_def
  proof (intro allI impI)
    fix c c' assume a: "compileCompareRest (op # ops) rights c = Inr c'"
    then obtain r rs where rights: "rights = r # rs" by (cases rights) auto
    with a obtain c1 where c1: "r c = Inr c1" by (cases "r c") auto
    with a rights obtain oc where oc: "compare_opcode op = Some oc"
      and rest: "compileCompareRest ops rs (emit c1 oc 0) = Inr c'"
      by (cases "compare_opcode op") auto
    from Cons.prems rights have r: "step_extends r" and rs: "\<forall>s \<in> set rs. step_extends s" by simp_all
    have "extends c c1" by (rule step_extendsD [OF r c1])
    moreover have "extends c1 (emit c1 oc 0)" by simp
    moreover have "extends (emit c1 oc 0) c'" by (rule step_extendsD [OF Cons.IH [OF rs] rest])
    ultimately show "extends c c'" by (meson extends_trans)
  qed
qed

lemma step_extends_compileDictItems:
  "\<forall>s \<in> set ks. step_extends s \<Longrightarrow> \<forall>s \<in> set vals. step_extends s \<Longrightarrow>
   step_extends (compileDictItems ks vals)"
proof (induction ks arbitrary: vals)
  case Nil
  then show ?case by (simp add: step_extends_def)
next
  case (Cons k ks)
  show ?case
    unfolding step_extends_def
  proof (intro allI impI)
    fix c c' assume a: "compileDictItems (k # ks) vals c = Inr c'"
    then obtain c1 where c1: "k c = Inr c1" by (cases "k c") auto
    with a obtain v vs where vals: "vals = v # vs" by (cases vals) auto
    with a c1 obtain c2 where c2: "v c1 = Inr c2" and rest: "compileDictItems ks vs c2 = Inr c'"
      by (cases "v c1") auto
    from Cons.prems vals have k: "step_extends k" and v: "step_extends v"
      and ks: "\<forall>s \<in> set ks. step_extends s" and vs: "\<forall>s \<in> set vs. step_extends s"
      by simp_all
    have "extends c c1" by (rule step_extendsD [OF k c1])
    moreover have "extends c1 c2" by (rule step_extendsD [OF v c2])
    moreover have "extends c2 c'" by (rule step_extendsD [OF Cons.IH [OF ks vs] rest])
    ultimately show "extends c c'" by (meson extends_trans)
  qed
qed

lemma compileBoolRest_extends:
  assumes "\<forall>s \<in> set vs. step_extends s" "compileBoolRest vs op c jumps = Inr (c', jumps')"
  shows "extends c c' \<and> (\<exists>new. jumps' = jumps @ new \<and>
           (\<forall>p \<in> set new. length (instructions c) \<le> p \<and> p < length (instructions c')))"
  using assms
proof (induction vs arbitrary: c jumps)
  case Nil
  then show ?case by simp
next
  case (Cons v vs)
  let ?c3 = "emit (emit (emit c OpDupTop 0) (if op = ''and'' then OpPopJumpIfFalse else OpPopJumpIfTrue) 0) OpPopTop 0"
  let ?pos = "length (instructions (emit c OpDupTop 0))"
  from Cons.prems(2) obtain c4 where c4: "v ?c3 = Inr c4"
    and rest: "compileBoolRest vs op c4 (jumps @ [?pos]) = Inr (c', jumps')"
    by (cases "v ?c3") (auto simp: Let_def)
  from Cons.prems(1) have v: "step_extends v" and vs: "\<forall>s \<in> set vs. step_extends s" by simp_all
  from v c4 have e34: "extends ?c3 c4" by (simp add: step_extends_def)
  have e03: "extends c ?c3" by (intro extends_emit_after) simp
  from Cons.IH [OF vs rest] obtain new where
    e4: "extends c4 c'" and j: "jumps' = (jumps @ [?pos]) @ new"
    and b: "\<forall>p \<in> set new. length (instructions c4) \<le> p \<and> p < length (instructions c')"
    by blast
  have l03: "length (instructions c) + 3 = length (instructions ?c3)" by (simp add: emit_def)
  have l34: "length (instructions ?c3) \<le> length (instructions c4)" using e34 by (rule extends_length)
  have l4: "length (instructions c4) \<le> length (instructions c')" using e4 by (rule extends_length)
  have pos: "?pos = length (instructions c) + 1" by (simp add: emit_def)
  have "extends c c'" using e03 e34 e4 by (meson extends_trans)
  moreover have "jumps' = jumps @ (?pos # new)" using j by simp
  moreover have "\<forall>p \<in> set (?pos # new). length (instructions c) \<le> p \<and> p < length (instructions c')"
    using b l03 l34 l4 pos by auto
  ultimately show ?case by blast
qed

lemma changeOperand_length [simp]: "length (instructions (changeOperand c p a)) = length (instructions c)"
  by (simp add: changeOperand_def)

lemma changeOperand_take: "n \<le> p \<Longrightarrow> take n (instructions (changeOperand c p a)) = take n (instructions c)"
  by (simp add: changeOperand_def)

lemma patch_jumps_keeps:
  "\<forall>p \<in> set jumps. n \<le> p \<Longrightarrow>
   length (instructions (patch_jumps c jumps)) = length (instructions c) \<and>
   take n (instructions (patch_jumps c jumps)) = take n (instructions c)"
  unfolding patch_jumps_def
  by (induction jumps arbitrary: c) (simp_all add: changeOperand_take)

lemma extends_iff_take:
  "extends c c' = (length (instructions c) \<le> length (instructions c') \<and>
                   take (length (instructions c)) (instructions c') = instructions c)"
proof
  assume "extends c c'"
  then show "length (instructions c) \<le> length (instructions c') \<and>
             take (length (instructions c)) (instructions c') = instructions c"
    by (auto simp: extends_def)
next
  assume a: "length (instructions c) \<le> length (instructions c') \<and>
             take (length (instructions c)) (instructions c') = instructions c"
  have "instructions c' = take (length (instructions c)) (instructions c') @ drop (length (instructions c)) (instructions c')"
    by simp
  with a have "instructions c' = instructions c @ drop (length (instructions c)) (instructions c')"
    by simp
  then show "extends c c'" unfolding extends_def by blast
qed

lemma extends_patch_jumps:
  assumes "extends c0 c" "\<forall>p \<in> set jumps. length (instructions c0) \<le> p"
  shows "extends c0 (patch_jumps c jumps)"
  using assms patch_jumps_keeps [OF assms(2), of c]
  by (simp add: extends_iff_take)

lemma step_extends_compileExpr: "step_extends (compileExpr h e)"
proof (induction e)
  case (BinaryOp l op r)
  show ?case
    unfolding step_extends_def
  proof (intro allI impI)
    fix c c' assume "compileExpr h (BinaryOp l op r) c = Inr c'"
    then obtain c1 c2 oc where "compileExpr h l c = Inr c1" "compileExpr h r c1 = Inr c2" "c' = emit c2 oc 0"
      by (auto simp: bind_err_Inr split: option.splits)
    with BinaryOp show "extends c c'"
      by (meson extends_trans extends_emit step_extendsD)
  qed
next
  case (UnaryOp op e)
  show ?case
    unfolding step_extends_def
  proof (intro allI impI)
    fix c c' assume "compileExpr h (UnaryOp op e) c = Inr c'"
    then obtain c1 oc where "compileExpr h e c = Inr c1" "c' = emit c1 oc 0"
      by (auto simp: bind_err_Inr split: option.splits)
    with UnaryOp show "extends c c'"
      by (meson extends_trans extends_emit step_extendsD)
  qed
next
  case (BoolOp op vs)
  show ?case
    unfolding step_extends_def
  proof (intro allI impI)
    fix c c' assume a: "compileExpr h (BoolOp op vs) c = Inr c'"
    then obtain v0 v1 rest where vs: "vs = v0 # v1 # rest"
      by (cases vs; cases "tl vs") auto
    from a vs obtain c1 c2 jumps where c1: "compileExpr h v0 c = Inr c1"
      and c2: "compileBoolRest (map (compileExpr h) (v1 # rest)) op c1 [] = Inr (c2, jumps)"
      and c': "c' = patch_jumps c2 jumps"
      by (auto simp: bind_err_Inr)
    have all: "\<forall>s \<in> set (map (compileExpr h) (v1 # rest)). step_extends s"
      using BoolOp vs by auto
    from compileBoolRest_extends [OF all c2]
    have e12: "extends c1 c2" and b: "\<forall>p \<in> set jumps. length (instructions c1) \<le> p" by auto
    have e01: "extends c c1" using BoolOp [of v0] vs c1 by (simp add: step_extends_def)
    have "\<forall>p \<in> set jumps. length (instructions c) \<le> p"
      using b extends_length [OF e01] by auto
    moreover have "extends c c2" using e01 e12 by (rule extends_trans)
    ultimately show "extends c c'" unfolding c' by (intro extends_patch_jumps)
  qed
next
  case (Compare l ops rights)
  have rest: "step_extends (compileCompareRest ops (map (compileExpr h) rights))"
    using Compare by (intro step_extends_compileCompareRest) auto
  show ?case
    unfolding step_extends_def
  proof (intro allI impI)
    fix c c' assume "compileExpr h (Compare l ops rights) c = Inr c'"
    then obtain c1 where "compileExpr h l c = Inr c1"
      "compileCompareRest ops (map (compileExpr h) rights) c1 = Inr c'"
      by (auto simp: bind_err_Inr)
    with Compare(1) rest show "extends c c'"
      by (meson extends_trans step_extendsD)
  qed
next
  case (Call func args)
  have rest: "step_extends (compileExprs (map (compileExpr h) args))"
    using Call by (intro step_extends_compileExprs) auto
  show ?case
    unfolding step_extends_def
  proof (intro allI impI)
    fix c c' assume "compileExpr h (Call func args) c = Inr c'"
    then obtain c1 c2 where "compileExpr h func c = Inr c1"
      "compileExprs (map (compileExpr h) args) c1 = Inr c2"
      "c' = emit c2 OpCallFunction (int (length args))"
      by (auto simp: bind_err_Inr)
    with Call(1) rest show "extends c c'"
      by (meson extends_trans extends_emit step_extendsD)
  qed
next
  case (Subscript v sl)
  show ?case
    unfolding step_extends_def
  proof (intro allI impI)
    fix c c' assume "compileExpr h (Subscript v sl) c = Inr c'"
    then obtain c1 c2 where "compileExpr h v c = Inr c1" "compileExpr h sl c1 = Inr c2"
      "c' = emit c2 OpBinarySubscr 0"
      by (auto simp: bind_err_Inr)
    with Subscript show "extends c c'"
      by (meson extends_trans extends_emit step_extendsD)
  qed
next
  case (List elts)
  have rest: "step_extends (compileExprs (map (compileExpr h) elts))"
    using List by (intro step_extends_compileExprs) auto
  show ?case
    unfolding step_extends_def
  proof (intro allI impI)
    fix c c' assume "compileExpr h (List elts) c = Inr c'"
    then obtain c1 where "compileExprs (map (compileExpr h) elts) c = Inr c1"
      "c' = emit c1 OpBuildList (int (length elts))"
      by (auto simp: bind_err_Inr)
    with rest show "extends c c'"
      by (meson extends_trans extends_emit step_extendsD)
  qed
next
  case (Dict ks vals)
  have rest: "step_extends (compileDictItems (map (compileExpr h) ks) (map (compileExpr h) vals))"
    using Dict by (intro step_extends_compileDictItems) auto
  show ?case
    unfolding step_extends_def
  proof (intro allI impI)
    fix c c' assume "compileExpr h (Dict ks vals) c = Inr c'"
    then obtain c1 where "compileDictItems (map (compileExpr h) ks) (map (compileExpr h) vals) c = Inr c1"
      "c' = emit c1 OpBuildDict (int (length ks))"
      by (auto simp: bind_err_Inr)
    with rest show "extends c c'"
      by (meson extends_trans extends_emit step_extendsD)
  qed
qed (simp_all add: step_extends_def)


section \<open>Relations that the expression compiler respects\<close>










section \<open>Integer division and modulo\<close>












section \<open>Equality of values\<close>









section \<open>GET_ITER\<close>

lemma range_string_ascii:
  "\<forall>b \<in> set bs. b < 0x80 \<Longrightarrow> range_string bs = bs"
proof (induction bs)
  case Nil
  then show ?case by (simp add: range_string.simps)
next
  case (Cons b bs)
  then show ?case by (subst range_string.simps) simp
qed

lemma string_runes_ascii:
  assumes "\<forall>c \<in> set s. (of_char c :: nat) < 0x80"
  shows "map utf8_encode (string_runes s) = map (\<lambda>c. [c]) s"
proof -
  have "range_string (map of_char s) = map of_char s"
    using assms by (intro range_string_ascii) auto
  then show ?thesis
    using assms by (simp add: string_runes_def utf8_encode_def)
qed

text \<open>
  Decoding the UTF-8 encoding of a scalar value gives the scalar value back, and so ranging
  over the encoding of a sequence of scalar values gives that sequence.
\<close>

lemma split3:
  fixes r :: nat
  obtains a b c where "r = a * 4096 + b * 64 + c" "b < 64" "c < 64"
    "r div 4096 = a" "(r div 64) mod 64 = b" "r mod 64 = c"
proof -
  define q where "q = r div 64"
  have 1: "r = q * 64 + r mod 64" unfolding q_def by simp
  have 2: "q = (q div 64) * 64 + q mod 64" by simp
  have 3: "r div 4096 = q div 64" unfolding q_def by (simp add: div_mult2_eq)
  have 4: "r = (q div 64) * 4096 + (q mod 64) * 64 + r mod 64"
    using 1 2 by linarith
  show ?thesis
    by (rule that [of "q div 64" "q mod 64" "r mod 64"]) (use 3 4 in \<open>simp_all add: q_def\<close>)
qed

lemma split4:
  fixes r :: nat
  obtains a b c d where "r = a * 262144 + b * 4096 + c * 64 + d" "b < 64" "c < 64" "d < 64"
    "r div 262144 = a" "(r div 4096) mod 64 = b" "(r div 64) mod 64 = c" "r mod 64 = d"
proof -
  define q where "q = r div 64"
  define p where "p = q div 64"
  have 1: "r = q * 64 + r mod 64" unfolding q_def by simp
  have 2: "q = p * 64 + q mod 64" unfolding p_def by simp
  have 3: "p = (p div 64) * 64 + p mod 64" by simp
  have 4: "r div 4096 = p" unfolding p_def q_def by (simp add: div_mult2_eq)
  have 5: "r div 262144 = p div 64" unfolding p_def q_def by (simp add: div_mult2_eq)
  have 6: "r = (p div 64) * 262144 + (p mod 64) * 4096 + (q mod 64) * 64 + r mod 64"
    using 1 2 3 by linarith
  show ?thesis
    by (rule that [of "p div 64" "p mod 64" "q mod 64" "r mod 64"]) (use 4 5 6 in \<open>simp_all add: q_def\<close>)
qed

lemma decode_encode1:
  assumes "r < 0x80"
  shows "decode_rune (map of_char (utf8_encode r) @ rest) = (r, length (utf8_encode r))"
  using assms by (simp add: utf8_encode_def of_char_of)

lemma decode_encode2:
  assumes "0x80 \<le> r" "r < 0x800"
  shows "decode_rune (map of_char (utf8_encode r) @ rest) = (r, length (utf8_encode r))"
proof -
  define a where "a = r div 64"
  define b where "b = r mod 64"
  have r: "r = a * 64 + b" "b < 64" unfolding a_def b_def by simp_all
  have bounds: "2 \<le> a" "a < 32" using assms r by linarith+
  have enc: "utf8_encode r = [char_of (0xC0 + a), char_of (0x80 + b)]"
    using assms by (simp add: utf8_encode_def a_def b_def)
  show ?thesis
    unfolding enc using bounds r by (simp add: of_char_of cont_byte_def)
qed

lemma decode_encode3:
  assumes "0x800 \<le> r" "r < 0x10000" "\<not> (0xD800 \<le> r \<and> r \<le> 0xDFFF)"
  shows "decode_rune (map of_char (utf8_encode r) @ rest) = (r, length (utf8_encode r))"
proof -
  obtain a b c where r: "r = a * 4096 + b * 64 + c" "b < 64" "c < 64"
    and d: "r div 4096 = a" "(r div 64) mod 64 = b" "r mod 64 = c"
    by (rule split3)
  have bounds: "a < 16" "a = 0 \<longrightarrow> 32 \<le> b" "a = 13 \<longrightarrow> b < 32"
    using assms r by linarith+
  have enc: "utf8_encode r = [char_of (0xE0 + a), char_of (0x80 + b), char_of (0x80 + c)]"
    using assms d by (auto simp: utf8_encode_def)
  have b0: "(0xE0 + a) mod 256 = 0xE0 + a" "(0x80 + b) mod 256 = 0x80 + b"
           "(0x80 + c) mod 256 = 0x80 + c"
    using bounds r by simp_all
  have dec: "decode_rune ((0xE0 + a) # (0x80 + b) # (0x80 + c) # rest) = (a * 4096 + b * 64 + c, 3)"
    using bounds r(2,3) by (auto simp: cont_byte_def)
  show ?thesis
    unfolding enc using dec r(1) by (simp only: list.map append.simps of_char_of b0 list.size) simp
qed

lemma decode_encode4:
  assumes "0x10000 \<le> r" "r \<le> 0x10FFFF"
  shows "decode_rune (map of_char (utf8_encode r) @ rest) = (r, length (utf8_encode r))"
proof -
  obtain a b c d where r: "r = a * 262144 + b * 4096 + c * 64 + d" "b < 64" "c < 64" "d < 64"
    and dv: "r div 262144 = a" "(r div 4096) mod 64 = b" "(r div 64) mod 64 = c" "r mod 64 = d"
    by (rule split4)
  have bounds: "a < 5" "a = 0 \<longrightarrow> 16 \<le> b" "a = 4 \<longrightarrow> b < 16"
    using assms r by linarith+
  have enc: "utf8_encode r = [char_of (0xF0 + a), char_of (0x80 + b), char_of (0x80 + c), char_of (0x80 + d)]"
    using assms dv by (simp add: utf8_encode_def)
  have b0: "(0xF0 + a) mod 256 = 0xF0 + a" "(0x80 + b) mod 256 = 0x80 + b"
           "(0x80 + c) mod 256 = 0x80 + c" "(0x80 + d) mod 256 = 0x80 + d"
    using bounds r by simp_all
  have dec: "decode_rune ((0xF0 + a) # (0x80 + b) # (0x80 + c) # (0x80 + d) # rest)
             = (a * 262144 + b * 4096 + c * 64 + d, 4)"
    using bounds r(2,3,4) by (auto simp: cont_byte_def)
  show ?thesis
    unfolding enc using dec r(1) by (simp only: list.map append.simps of_char_of b0 list.size) simp
qed

lemma decode_encode:
  assumes "scalar_value r"
  shows "decode_rune (map of_char (utf8_encode r) @ rest) = (r, length (utf8_encode r))"
proof -
  consider "r < 0x80" | "0x80 \<le> r" "r < 0x800" | "0x800 \<le> r" "r < 0x10000" | "0x10000 \<le> r"
    by linarith
  then show ?thesis
  proof cases
    case 1
    then show ?thesis by (rule decode_encode1)
  next
    case 2
    then show ?thesis by (rule decode_encode2)
  next
    case 3
    then show ?thesis using assms by (intro decode_encode3) (simp_all add: scalar_value_def)
  next
    case 4
    then show ?thesis using assms by (intro decode_encode4) (simp_all add: scalar_value_def)
  qed
qed

lemma utf8_encode_nonempty: "utf8_encode r \<noteq> []"
  by (simp add: utf8_encode_def)

lemma string_runes_runes_string:
  "\<forall>c \<in> set cs. scalar_value c \<Longrightarrow> string_runes (runes_string cs) = cs"
proof (induction cs)
  case Nil
  then show ?case by (simp add: string_runes_def runes_string_def range_string.simps)
next
  case (Cons c cs)
  have dec: "decode_rune (map of_char (utf8_encode c) @ map of_char (runes_string cs)) = (c, length (utf8_encode c))"
    using Cons.prems by (intro decode_encode) simp
  have "range_string (map of_char (utf8_encode c) @ map of_char (runes_string cs))
        = c # range_string (map of_char (runes_string cs))"
    by (subst range_string.simps) (simp add: dec utf8_encode_nonempty)
  then show ?case
    using Cons by (simp add: string_runes_def runes_string_def)
qed


lemma exec_get_iter_list:
  assumes "Stack f = PyList a # st" "length (Stack f) \<le> 1000"
  shows "exec h n OpGetIter arg f fs m = Inr (Next (f # fs) m)"
  using assms by (simp add: pop_def push_def push_continue_def continue_def)

lemma exec_get_iter_string:
  assumes "Stack f = PyString s # st" "length (Stack f) \<le> 1000"
  shows "exec h n OpGetIter arg f fs m =
     Inr (Next (f\<lparr>Stack := PyList (VAddr (length (vheap m))) # st\<rparr> # fs)
               (m\<lparr>vheap := vheap m @ [ListObj (map (\<lambda>r. PyString (utf8_encode r)) (string_runes s))]\<rparr>))"
  using assms by (simp add: pop_def push_def push_continue_def continue_def alloc_def)

lemma exec_get_iter_utf8:
  assumes "Stack f = PyString (runes_string cs) # st" "\<forall>c \<in> set cs. scalar_value c"
    "length (Stack f) \<le> 1000"
  shows "exec h n OpGetIter arg f fs m =
     Inr (Next (f\<lparr>Stack := PyList (VAddr (length (vheap m))) # st\<rparr> # fs)
               (m\<lparr>vheap := vheap m @ [ListObj (map (\<lambda>c. PyString (utf8_encode c)) cs)]\<rparr>))"
  using exec_get_iter_string [OF assms(1,3)] string_runes_runes_string [OF assms(2)] by simp

lemma exec_get_iter_other:
  assumes "Stack f = v # st" "\<forall>a. v \<noteq> PyList a" "\<forall>s. v \<noteq> PyString s" "obj_Type v = Inr t"
  shows "exec h n OpGetIter arg f fs m =
     Inl (RuntimeError (''OpGetIter: '' @ quoted t @ '' object is not iterable''))"
  using assms by (cases v) (simp_all add: pop_def)

lemma for_42_compiles: "Compile host0 for_42 = Inr for_42_code"
  by code_simp

lemma for_42_fails:
  "fst (Run host0 10 (NewVM []) for_42_code) =
     Inl (RuntimeError (''OpGetIter: '' @ quoted ''int'' @ '' object is not iterable''))"
  by code_simp

lemma sample_encoding:
  "runes_string [0x61, 0xE9, 0x20AC, 0x1F600] =
     [CHR ''a'', CHR 0xC3, CHR 0xA9, CHR 0xE2, CHR 0x82, CHR 0xAC, CHR 0xF0, CHR 0x9F, CHR 0x98, CHR 0x80]"
  "map utf8_encode [0x61, 0xE9, 0x20AC, 0x1F600] =
     [[CHR ''a''], [CHR 0xC3, CHR 0xA9], [CHR 0xE2, CHR 0x82, CHR 0xAC], [CHR 0xF0, CHR 0x9F, CHR 0x98, CHR 0x80]]"
  by (simp_all add: runes_string_def utf8_encode_def char_of_def bit_iff_odd)

text \<open>
  C9.  \<open>GET_ITER\<close> on a list pushes the same list back.  On a string it pushes a new list
  holding, for each code point that ranging over the string yields, in order, the string of
  that code point.  For a string that is the UTF-8 encoding of the characters \<open>cs\<close> (any
  Unicode scalar values), these are exactly the characters of \<open>cs\<close>: one element per
  character, in order, each the encoding of that one character; for ASCII strings, one
  element per byte.  On every other value it is the runtime error "object is not
  iterable", naming the type.  The module \<open>for i in 42: pass\<close> fails with that error.
\<close>

theorem C9_get_iter:
  "(Stack f = PyList a # st \<and> length (Stack f) \<le> 1000 \<longrightarrow>
      exec h n OpGetIter arg f fs m = Inr (Next (f # fs) m))
   \<and> (Stack f = PyString s # st \<and> length (Stack f) \<le> 1000 \<longrightarrow>
      exec h n OpGetIter arg f fs m =
        Inr (Next (f\<lparr>Stack := PyList (VAddr (length (vheap m))) # st\<rparr> # fs)
               (m\<lparr>vheap := vheap m @ [ListObj (map (\<lambda>r. PyString (utf8_encode r)) (string_runes s))]\<rparr>)))
   \<and> (Stack f = PyString (runes_string cs) # st \<and> (\<forall>c \<in> set cs. scalar_value c)
        \<and> length (Stack f) \<le> 1000 \<longrightarrow>
      exec h n OpGetIter arg f fs m =
        Inr (Next (f\<lparr>Stack := PyList (VAddr (length (vheap m))) # st\<rparr> # fs)
               (m\<lparr>vheap := vheap m @ [ListObj (map (\<lambda>c. PyString (utf8_encode c)) cs)]\<rparr>)))
   \<and> ((\<forall>c \<in> set cs. scalar_value c) \<longrightarrow> string_runes (runes_string cs) = cs)
   \<and> ((\<forall>c \<in> set s. (of_char c :: nat) < 0x80) \<longrightarrow>
      map (\<lambda>r. PyString (utf8_encode r)) (string_runes s) = map (\<lambda>c. PyString [c]) s)
   \<and> (Stack f = v # st \<and> (\<forall>a. v \<noteq> PyList a) \<and> (\<forall>s. v \<noteq> PyString s) \<and> obj_Type v = Inr t \<longrightarrow>
      exec h n OpGetIter arg f fs m =
        Inl (RuntimeError (''OpGetIter: '' @ quoted t @ '' object is not iterable'')))
   \<and> Compile host0 for_42 = Inr for_42_code
   \<and> fst (Run host0 10 (NewVM []) for_42_code) =
        Inl (RuntimeError (''OpGetIter: '' @ quoted ''int'' @ '' object is not iterable''))"
proof -
  have asc: "(\<forall>c \<in> set s. (of_char c :: nat) < 0x80) \<longrightarrow>
      map (\<lambda>r. PyString (utf8_encode r)) (string_runes s) = map (\<lambda>c. PyString [c]) s"
  proof
    assume a: "\<forall>c \<in> set s. (of_char c :: nat) < 0x80"
    have "map (\<lambda>r. PyString (utf8_encode r)) (string_runes s) = map PyString (map utf8_encode (string_runes s))"
      by simp
    also have "\<dots> = map PyString (map (\<lambda>c. [c]) s)"
      by (simp only: string_runes_ascii [OF a])
    finally show "map (\<lambda>r. PyString (utf8_encode r)) (string_runes s) = map (\<lambda>c. PyString [c]) s"
      by simp
  qed
  show ?thesis
    using asc exec_get_iter_list [of f a st h n arg fs m] exec_get_iter_string [of f s st h n arg fs m]
      exec_get_iter_utf8 [of f cs st h n arg fs m] string_runes_runes_string [of cs]
      exec_get_iter_other [of f v st t h n arg fs m] for_42_compiles for_42_fails
    by blast
qed

theorem C9_get_iter_witness:
  "exec host0 0 OpGetIter 0 (frame_at for_42_code 2 [PyList (VAddr 0)]) [] (NewVM [])
     = Inr (Next [frame_at for_42_code 2 [PyList (VAddr 0)]] (NewVM []))
   \<and> exec host0 0 OpGetIter 0
        (frame_at for_42_code 2
           [PyString [CHR ''a'', CHR 0xC3, CHR 0xA9, CHR 0xE2, CHR 0x82, CHR 0xAC, CHR 0xF0, CHR 0x9F, CHR 0x98, CHR 0x80]])
        [] (NewVM [])
     = Inr (Next [frame_at for_42_code 2 [PyList (VAddr 0)]]
             ((NewVM [])\<lparr>vheap := [ListObj [PyString ''a'', PyString [CHR 0xC3, CHR 0xA9],
                 PyString [CHR 0xE2, CHR 0x82, CHR 0xAC], PyString [CHR 0xF0, CHR 0x9F, CHR 0x98, CHR 0x80]]]\<rparr>))
   \<and> exec host0 0 OpGetIter 0 (frame_at for_42_code 2 [PyInt 42]) [] (NewVM [])
     = Inl (RuntimeError (''OpGetIter: '' @ quoted ''int'' @ '' object is not iterable''))"
proof -
  have l: "exec host0 0 OpGetIter 0 (frame_at for_42_code 2 [PyList (VAddr 0)]) [] (NewVM [])
     = Inr (Next [frame_at for_42_code 2 [PyList (VAddr 0)]] (NewVM []))"
    using C9_get_iter [where f = "frame_at for_42_code 2 [PyList (VAddr 0)]" and a = "VAddr 0" and st = "[]"
        and h = host0 and n = 0 and arg = 0 and fs = "[]" and m = "NewVM []"]
    by (simp add: frame_at_def NewFrame_def)
  have sc: "\<forall>c \<in> set [0x61, 0xE9, 0x20AC, 0x1F600]. scalar_value c"
    by (simp add: scalar_value_def)
  have s: "exec host0 0 OpGetIter 0
        (frame_at for_42_code 2
           [PyString [CHR ''a'', CHR 0xC3, CHR 0xA9, CHR 0xE2, CHR 0x82, CHR 0xAC, CHR 0xF0, CHR 0x9F, CHR 0x98, CHR 0x80]])
        [] (NewVM [])
     = Inr (Next [frame_at for_42_code 2 [PyList (VAddr 0)]]
             ((NewVM [])\<lparr>vheap := [ListObj [PyString ''a'', PyString [CHR 0xC3, CHR 0xA9],
                 PyString [CHR 0xE2, CHR 0x82, CHR 0xAC], PyString [CHR 0xF0, CHR 0x9F, CHR 0x98, CHR 0x80]]]\<rparr>))"
    using sc C9_get_iter [where f = "frame_at for_42_code 2 [PyString (runes_string [0x61, 0xE9, 0x20AC, 0x1F600])]"
        and cs = "[0x61, 0xE9, 0x20AC, 0x1F600]" and st = "[]"
        and h = host0 and n = 0 and arg = 0 and fs = "[]" and m = "NewVM []"]
      sample_encoding
    by (simp add: frame_at_def NewFrame_def NewVM_def)
  have o: "exec host0 0 OpGetIter 0 (frame_at for_42_code 2 [PyInt 42]) [] (NewVM [])
     = Inl (RuntimeError (''OpGetIter: '' @ quoted ''int'' @ '' object is not iterable''))"
    using C9_get_iter [where f = "frame_at for_42_code 2 [PyInt 42]" and v = "PyInt 42" and st = "[]"
        and t = "''int''" and h = host0 and n = 0 and arg = 0 and fs = "[]" and m = "NewVM []"]
    by (simp add: frame_at_def NewFrame_def)
  show ?thesis using l s o by blast
qed
section \<open>The value of a module\<close>

lemma compileModuleBody_last_expr:
  "compileModuleBody h (body @ [ExprStmt e]) c =
     bind_err (compileExprs (map (compileStmt h) body) c) (\<lambda>c1.
       bind_err (compileExpr h e c1) (\<lambda>c2. Inr (emit c2 OpReturnValue 0, True)))"
proof (induction body arbitrary: c)
  case Nil
  then show ?case by simp
next
  case (Cons s body)
  show ?case
    by (cases "compileStmt h s c") (simp_all add: Cons.IH)
qed

lemma compileModule_last_expr:
  "compileModule h c (body @ [ExprStmt e]) =
     bind_err (compileExprs (map (compileStmt h) body) c) (\<lambda>c1.
       bind_err (compileExpr h e c1) (\<lambda>c2. Inr (module_code (emit c2 OpReturnValue 0))))"
proof (cases "compileExprs (map (compileStmt h) body) c")
  case (Inl err)
  then show ?thesis by (simp add: compileModule_def compileModuleBody_last_expr)
next
  case (Inr c1)
  then show ?thesis
    by (cases "compileExpr h e c1") (simp_all add: compileModule_def compileModuleBody_last_expr)
qed

lemma run_loop_return:
  assumes "0 \<le> IP f" "IP f < int (length (Instructions (Code f)))"
    "Instructions (Code f) ! nat (IP f) = \<lparr>Op = OpReturnValue, Arg = a\<rparr>" "Stack f = v # st"
  shows "run_loop h (Suc n) [f] m = (Inr v, m)"
  using assms by (simp add: pop_def)

lemma scenario9_compiles: "Compile host0 scenario9 = Inr scenario9_code"
  by code_simp

lemma scenario9_runs: "fst (Run host0 20 (NewVM []) scenario9_code) = Inr (PyInt 50)"
  by code_simp

lemma if_else_compiles: "Compile host0 if_else_module = Inr if_else_code"
  by code_simp

lemma if_else_runs:
  "fst (Run host0 20 (NewVM []) if_else_code) = Inr PyNone
   \<and> globals (snd (Run host0 20 (NewVM []) if_else_code)) ''x'' = Some (PyInt 1)"
  by code_simp

text \<open>
  C5.  The compiler does what the claim says: for a module whose last statement is the
  expression statement \<open>e\<close> it emits \<open>RETURN_VALUE\<close> directly after the code of \<open>e\<close>, with no
  \<open>POP_TOP\<close> (\<open>compileModule_last_expr\<close>), and scenario 9 runs to 50.  But the run of the
  compiled module does not always return the value of the trailing expression.  In the
  module \<open>if_else_module\<close> the taken branch of the \<open>if\<close> ends with \<open>JUMP_FORWARD 7\<close>: the compiler
  patched the jump with the absolute index of the instruction after the \<open>else\<close> branch, and the
  machine adds the operand to the instruction pointer, which is already 5.  The pointer
  leaves the code, the trailing expression \<open>x\<close> is never evaluated, and the run returns
  \<open>None\<close> although \<open>x\<close> is 1.
\<close>

theorem C5_if_else_module_returns_none:
  "Compile host0 if_else_module = Inr if_else_code
   \<and> fst (Run host0 20 (NewVM []) if_else_code) = Inr PyNone
   \<and> globals (snd (Run host0 20 (NewVM []) if_else_code)) ''x'' = Some (PyInt 1)"
  by (simp add: if_else_compiles if_else_runs)
section \<open>Short-circuit of \<open>and\<close>\<close>

lemma and_code_shape:
  assumes "compileExpr h (BoolOp ''and'' [A, B]) c = Inr c'"
  shows "\<exists>cA codeB. compileExpr h A c = Inr cA \<and>
           instructions c' = instructions cA @
             [\<lparr>Op = OpDupTop, Arg = 0\<rparr>, \<lparr>Op = OpPopJumpIfFalse, Arg = int (length (instructions c'))\<rparr>,
              \<lparr>Op = OpPopTop, Arg = 0\<rparr>] @ codeB"
proof -
  from assms obtain cA cB where cA: "compileExpr h A c = Inr cA"
    and cB: "compileExpr h B (emit (emit (emit cA OpDupTop 0) OpPopJumpIfFalse 0) OpPopTop 0) = Inr cB"
    and c': "c' = changeOperand cB (Suc (length (instructions cA))) (int (length (instructions cB)))"
    by (auto simp: bind_err_Inr Let_def patch_jumps_def emit_def)
  from step_extendsD [OF step_extends_compileExpr cB]
  obtain codeB where "instructions cB = instructions cA @
      [\<lparr>Op = OpDupTop, Arg = 0\<rparr>, \<lparr>Op = OpPopJumpIfFalse, Arg = 0\<rparr>, \<lparr>Op = OpPopTop, Arg = 0\<rparr>] @ codeB"
    by (auto simp: extends_def emit_def)
  then have "instructions c' = instructions cA @
             [\<lparr>Op = OpDupTop, Arg = 0\<rparr>, \<lparr>Op = OpPopJumpIfFalse, Arg = int (length (instructions c'))\<rparr>,
              \<lparr>Op = OpPopTop, Arg = 0\<rparr>] @ codeB"
    by (simp add: c' changeOperand_def list_update_append nth_append)
  with cA show ?thesis by blast
qed

lemma and_short_circuit_steps:
  assumes "Instructions (Code f) = pre @ [\<lparr>Op = OpDupTop, Arg = 0\<rparr>, \<lparr>Op = OpPopJumpIfFalse, Arg = L\<rparr>] @ rest"
    "IP f = int (length pre)" "Stack f = v # st" "length (Stack f) < 1000" "obj_IsTruthy m v = Inr False"
  shows "run_loop h (Suc (Suc n)) (f # fs) m = run_loop h n (f\<lparr>IP := L\<rparr> # fs) m"
proof -
  have f: "f\<lparr>Stack := v # st, IP := L\<rparr> = f\<lparr>IP := L\<rparr>"
    using assms(3) by simp
  have n1: "nat (int (length pre) + 1) = Suc (length pre)" by simp
  show ?thesis
    using assms
    by (simp add: nth_append push_continue_def push_def peek_def pop_def continue_def f n1 del: nat_int_add)
qed

lemma and_example_runs: "fst (Run host0 10 (NewVM []) and_example_code) = Inr (PyBool False)"
  by code_simp

lemma and_example_compiles: "Compile host0 [ExprStmt and_example] = Inr and_example_code"
  by code_simp

lemma undefined_name_fails:
  "Compile host0 [ExprStmt (Name ''undefined_name'')] = Inr undefined_name_code \<and>
   fst (Run host0 10 (NewVM []) undefined_name_code) =
     Inl (RuntimeError (''name '' @ quoted ''undefined_name'' @ '' is not defined''))"
  by code_simp

text \<open>
  C7.  When \<open>A and B\<close> compiles, its code is the code of \<open>A\<close>, then \<open>DUP_TOP\<close>,
  \<open>POP_JUMP_IF_FALSE\<close> to the end of the whole expression, \<open>POP_TOP\<close>, then the code of
  \<open>B\<close>.  So when the code of \<open>A\<close> has left a falsy value \<open>v\<close> on the stack, two steps later
  the frame is at the end of the expression with \<open>v\<close> still on top, and nothing else has
  changed: none of the instructions of \<open>B\<close> has run, the machine (output, globals,
  objects) is the same, and no error of \<open>B\<close> can have been raised.  The module
  \<open>False and undefined_name\<close> runs to \<open>False\<close>, although \<open>undefined_name\<close> alone is a name
  error.
\<close>

theorem C7_and_short_circuit:
  "(compileExpr h (BoolOp ''and'' [A, B]) c = Inr c' \<longrightarrow>
     (\<exists>cA codeB. compileExpr h A c = Inr cA
        \<and> instructions c' = instructions cA @
             [\<lparr>Op = OpDupTop, Arg = 0\<rparr>, \<lparr>Op = OpPopJumpIfFalse, Arg = int (length (instructions c'))\<rparr>,
              \<lparr>Op = OpPopTop, Arg = 0\<rparr>] @ codeB
        \<and> (\<forall>f fs m n v st more.
              Instructions (Code f) = instructions c' @ more \<and> IP f = int (length (instructions cA))
              \<and> Stack f = v # st \<and> length (Stack f) < 1000 \<and> obj_IsTruthy m v = Inr False \<longrightarrow>
              run_loop h (Suc (Suc n)) (f # fs) m
                = run_loop h n (f\<lparr>IP := int (length (instructions c'))\<rparr> # fs) m)))
   \<and> Compile host0 [ExprStmt and_example] = Inr and_example_code
   \<and> fst (Run host0 10 (NewVM []) and_example_code) = Inr (PyBool False)
   \<and> Compile host0 [ExprStmt (Name ''undefined_name'')] = Inr undefined_name_code
   \<and> fst (Run host0 10 (NewVM []) undefined_name_code) =
        Inl (RuntimeError (''name '' @ quoted ''undefined_name'' @ '' is not defined''))"
proof -
  have main: "compileExpr h (BoolOp ''and'' [A, B]) c = Inr c' \<longrightarrow>
     (\<exists>cA codeB. compileExpr h A c = Inr cA
        \<and> instructions c' = instructions cA @
             [\<lparr>Op = OpDupTop, Arg = 0\<rparr>, \<lparr>Op = OpPopJumpIfFalse, Arg = int (length (instructions c'))\<rparr>,
              \<lparr>Op = OpPopTop, Arg = 0\<rparr>] @ codeB
        \<and> (\<forall>f fs m n v st more.
              Instructions (Code f) = instructions c' @ more \<and> IP f = int (length (instructions cA))
              \<and> Stack f = v # st \<and> length (Stack f) < 1000 \<and> obj_IsTruthy m v = Inr False \<longrightarrow>
              run_loop h (Suc (Suc n)) (f # fs) m
                = run_loop h n (f\<lparr>IP := int (length (instructions c'))\<rparr> # fs) m))"
  proof
    assume comp: "compileExpr h (BoolOp ''and'' [A, B]) c = Inr c'"
    from and_code_shape [OF comp] obtain cA codeB where cA: "compileExpr h A c = Inr cA"
      and shape: "instructions c' = instructions cA @
             [\<lparr>Op = OpDupTop, Arg = 0\<rparr>, \<lparr>Op = OpPopJumpIfFalse, Arg = int (length (instructions c'))\<rparr>,
              \<lparr>Op = OpPopTop, Arg = 0\<rparr>] @ codeB"
      by blast
    have steps: "\<forall>f fs m n v st more.
              Instructions (Code f) = instructions c' @ more \<and> IP f = int (length (instructions cA))
              \<and> Stack f = v # st \<and> length (Stack f) < 1000 \<and> obj_IsTruthy m v = Inr False \<longrightarrow>
              run_loop h (Suc (Suc n)) (f # fs) m
                = run_loop h n (f\<lparr>IP := int (length (instructions c'))\<rparr> # fs) m"
    proof (intro allI impI)
      fix f :: Frame and fs m n v st more
      assume a: "Instructions (Code f) = instructions c' @ more \<and> IP f = int (length (instructions cA))
              \<and> Stack f = v # st \<and> length (Stack f) < 1000 \<and> obj_IsTruthy m v = Inr False"
      have i: "Instructions (Code f) = instructions cA @
          [\<lparr>Op = OpDupTop, Arg = 0\<rparr>, \<lparr>Op = OpPopJumpIfFalse, Arg = int (length (instructions c'))\<rparr>]
          @ (\<lparr>Op = OpPopTop, Arg = 0\<rparr> # codeB @ more)"
        using a by (subst (asm) shape) simp
      from a show "run_loop h (Suc (Suc n)) (f # fs) m
                = run_loop h n (f\<lparr>IP := int (length (instructions c'))\<rparr> # fs) m"
        by (intro and_short_circuit_steps [OF i]) auto
    qed
    from cA shape steps show "\<exists>cA codeB. compileExpr h A c = Inr cA
        \<and> instructions c' = instructions cA @
             [\<lparr>Op = OpDupTop, Arg = 0\<rparr>, \<lparr>Op = OpPopJumpIfFalse, Arg = int (length (instructions c'))\<rparr>,
              \<lparr>Op = OpPopTop, Arg = 0\<rparr>] @ codeB
        \<and> (\<forall>f fs m n v st more.
              Instructions (Code f) = instructions c' @ more \<and> IP f = int (length (instructions cA))
              \<and> Stack f = v # st \<and> length (Stack f) < 1000 \<and> obj_IsTruthy m v = Inr False \<longrightarrow>
              run_loop h (Suc (Suc n)) (f # fs) m
                = run_loop h n (f\<lparr>IP := int (length (instructions c'))\<rparr> # fs) m)"
      by blast
  qed
  show ?thesis
    using main and_example_compiles and_example_runs undefined_name_fails by blast
qed

theorem C7_and_short_circuit_witness:
  "run_loop host0 3 [frame_at and_example_code 1 [PyBool False]] (NewVM [])
     = (Inr (PyBool False), NewVM [])"
proof -
  let ?A = "NameConstant (GoBool False)" and ?B = "Name ''undefined_name''"
  let ?f = "frame_at and_example_code 1 [PyBool False]"
  have "\<exists>c'. compileExpr host0 (BoolOp ''and'' [?A, ?B]) NewCompiler = Inr c'
          \<and> instructions c' =
              [\<lparr>Op = OpLoadConst, Arg = 0\<rparr>, \<lparr>Op = OpDupTop, Arg = 0\<rparr>, \<lparr>Op = OpPopJumpIfFalse, Arg = 5\<rparr>,
               \<lparr>Op = OpPopTop, Arg = 0\<rparr>, \<lparr>Op = OpLoadName, Arg = 0\<rparr>]"
    by (simp add: NewCompiler_def emit_def emit_const_def emit_name_def addConstant_def addName_def
        const_key_def compileName_def changeOperand_def patch_jumps_def NewVM_def Let_def)
  then obtain c' where comp: "compileExpr host0 (BoolOp ''and'' [?A, ?B]) NewCompiler = Inr c'"
    and ins: "instructions c' =
              [\<lparr>Op = OpLoadConst, Arg = 0\<rparr>, \<lparr>Op = OpDupTop, Arg = 0\<rparr>, \<lparr>Op = OpPopJumpIfFalse, Arg = 5\<rparr>,
               \<lparr>Op = OpPopTop, Arg = 0\<rparr>, \<lparr>Op = OpLoadName, Arg = 0\<rparr>]"
    by blast
  from C7_and_short_circuit [where h = host0 and A = ?A and B = ?B and c = NewCompiler and c' = c'] comp
  obtain cA where cA: "compileExpr host0 ?A NewCompiler = Inr cA"
    and steps: "\<forall>f fs m n v st more.
              Instructions (Code f) = instructions c' @ more \<and> IP f = int (length (instructions cA))
              \<and> Stack f = v # st \<and> length (Stack f) < 1000 \<and> obj_IsTruthy m v = Inr False \<longrightarrow>
              run_loop host0 (Suc (Suc n)) (f # fs) m
                = run_loop host0 n (f\<lparr>IP := int (length (instructions c'))\<rparr> # fs) m"
    by blast
  from cA have len: "length (instructions cA) = 1"
    by (auto simp: NewCompiler_def emit_def emit_const_def addConstant_def split: option.splits)
  have "run_loop host0 (Suc (Suc 1)) (?f # []) (NewVM [])
          = run_loop host0 1 (?f\<lparr>IP := int (length (instructions c'))\<rparr> # []) (NewVM [])"
    using steps [rule_format, of ?f "[\<lparr>Op = OpReturnValue, Arg = 0\<rparr>]" "PyBool False" "[]" "NewVM []" 1 "[]"]
    by (simp add: ins len frame_at_def NewFrame_def and_example_code_def)
  also have "\<dots> = (Inr (PyBool False), NewVM [])"
    by (simp add: ins frame_at_def NewFrame_def and_example_code_def pop_def)
  finally show ?thesis by (simp add: eval_nat_numeral)
qed

section \<open>Printing\<close>

lemma print_hello_compiles: "Compile host0 print_hello = Inr print_hello_code"
  by code_simp

lemma print_hello_output:
  "stdout (snd (Run host0 10 (NewVM []) print_hello_code)) = ''hello'' @ [CHR 0x0A]"
  by code_simp

lemma print_three_compiles: "Compile host0 print_three = Inr print_three_code"
  by code_simp

lemma print_three_output:
  "stdout (snd (Run host0 20 (NewVM []) print_three_code)) = ''1 a 2'' @ [CHR 0x0A, CHR 0x0A]"
  by code_simp

text \<open>
  C3, the code at the failing input.  \<open>print "hello"\<close> writes \<open>hello\<close> and a newline: the
  string is written without double quotes, since \<open>String()\<close> of a string is its value.
  The rest of the claim shows on \<open>print 1, "a", 2\<close> followed by a bare \<open>print\<close>: the
  renderings in order, one space between them, one newline, and one newline for the bare
  \<open>print\<close>.
\<close>

theorem C3_print_string_unquoted:
  "Compile host0 print_hello = Inr print_hello_code
   \<and> stdout (snd (Run host0 10 (NewVM []) print_hello_code)) = ''hello'' @ [CHR 0x0A]
   \<and> stdout (snd (Run host0 10 (NewVM []) print_hello_code)) \<noteq> [CHR 0x22] @ ''hello'' @ [CHR 0x22, CHR 0x0A]
   \<and> obj_String h n m (PyString s) = Inr s
   \<and> Compile host0 print_three = Inr print_three_code
   \<and> stdout (snd (Run host0 20 (NewVM []) print_three_code)) = ''1 a 2'' @ [CHR 0x0A, CHR 0x0A]"
  by (simp add: print_hello_compiles print_hello_output print_three_compiles print_three_output)

section \<open>Names in function scope\<close>











lemma same_locals_trans: "same_locals a b \<Longrightarrow> same_locals b c \<Longrightarrow> same_locals a c"
  by (simp add: same_locals_def)




















section \<open>C8: INDENT and DEDENT tokens over the whole token stream\<close>

lemma NextToken_no_panic:
  "indentStack l \<noteq> [] \<Longrightarrow> NextToken u l \<noteq> None"
proof (induction u l rule: NextToken.induct)
  case (1 u l)
  have hi: "handleIndentation l \<noteq> None"
    using "1.prems"
          advanced_def [of "l\<lparr>atLineStart := False\<rparr>" "snd (indentLoop 0 (l\<lparr>atLineStart := False\<rparr>))"]
          indentLoop_advanced [of "l\<lparr>atLineStart := False\<rparr>" 0]
    by (auto simp: handleIndentation_def Let_def simp del: of_char_Char
             split: if_splits prod.splits list.splits)
  then obtain opt l1 where r: "handleIndentation l = Some (opt, l1)"
    by (cases "handleIndentation l") auto
  show ?case
  proof (cases opt)
    case (Some t)
    then show ?thesis
      using r by (subst NextToken.simps) simp
  next
    case None
    let ?l2 = "skipWhitespace l1"
    obtain ch l3 where rc: "readChar ?l2 = (ch, l3)"
      by (cases "readChar ?l2")
    have "indentStack (skipComment l3) = indentStack l"
      using handleIndentation_nil [of l l1] r None skipWhitespace_advanced [of l1]
            readChar_advanced [of ?l2] rc skipComment_advanced [of l3]
      by (simp add: advanced_def)
    then have "ch = of_char CHR ''#'' \<Longrightarrow> NextToken u (skipComment l3) \<noteq> None"
      using "1.IH" [OF _ refl refl refl refl rc [symmetric]] r None "1.prems" by simp
    then show ?thesis
      using r None rc by (subst NextToken.simps) (simp add: Let_def del: of_char_Char)
  qed
qed

text \<open>
  One token: the indentation stack stays non-empty and the pending DEDENTs non-negative;
  unless the token is the indentation error, INDENT raises what the lexer owes by one,
  DEDENT lowers it by one, any other token leaves it, and at EOF nothing is owed.
\<close>

lemma NextToken_owed:
  assumes "NextToken u l = Some (tok, l')" "indentStack l \<noteq> []" "0 \<le> pendingDedents l"
  shows "indentStack l' \<noteq> [] \<and> 0 \<le> pendingDedents l'
         \<and> (\<not> is_indentation_error tok \<longrightarrow>
              owed l' = owed l + (if Type tok = INDENT then 1 else if Type tok = DEDENT then - 1 else 0)
              \<and> (Type tok = EOF \<longrightarrow> owed l = 0))"
  using assms
proof (induction u l rule: NextToken.induct)
  case (1 u l)
  obtain opt l1 where r: "handleIndentation l = Some (opt, l1)"
    using "1.prems"(1) by (subst (asm) NextToken.simps) (auto split: option.splits)
  show ?case
  proof (cases opt)
    case (Some t)
    then have "tok = t" "l' = l1"
      using "1.prems"(1) r by (subst (asm) NextToken.simps, simp)+
    then show ?thesis
      using handleIndentation_token [of l tok l'] r Some "1.prems"(2,3)
      by (auto simp: is_indentation_error_def owed_def)
  next
    case None
    have hi: "handleIndentation l = Some (None, l1)"
      using r None by simp
    let ?l2 = "skipWhitespace l1"
    obtain ch l3 where rc: "readChar ?l2 = (ch, l3)"
      by (cases "readChar ?l2")
    have a2: "advanced l ?l2" and nopending: "pendingDedents l = 0"
      using handleIndentation_nil [OF hi] skipWhitespace_advanced [of l1] "1.prems"(3)
      by (auto intro: advanced_trans)
    have a3: "advanced l l3"
      using readChar_advanced [of ?l2] rc a2 by (auto intro: advanced_trans)
    have same: "advanced l b \<Longrightarrow> indentStack b = indentStack l \<and> pendingDedents b = pendingDedents l
                                   \<and> owed b = owed l" for b
      by (simp add: advanced_def owed_def)
    show ?thesis
    proof (cases "ch = of_char CHR ''#''")
      case True
      have a4: "advanced l (skipComment l3)"
        using a3 skipComment_advanced [of l3] by (rule advanced_trans)
      have "NextToken u (skipComment l3) = Some (tok, l')"
        using "1.prems"(1) hi rc True by (subst (asm) NextToken.simps) (simp add: Let_def)
      then show ?thesis
        using "1.IH" [OF hi refl refl refl refl rc [symmetric] True] "1.prems"(2,3) same [OF a4]
        by simp
    next
      case False
      then have st: "scanToken u (line ?l2) (column ?l2) ch l3 = (tok, l')"
        using "1.prems"(1) hi rc by (subst (asm) NextToken.simps) (simp add: Let_def)
      show ?thesis
      proof (cases "ch = 0")
        case True
        have "indentStack l3 \<noteq> []"
          using same [OF a3] "1.prems"(2) by simp
        then obtain cur below where stack: "indentStack l3 = cur # below"
          by (cases "indentStack l3") auto
        show ?thesis
          using st True stack same [OF a3] nopending
          by (auto simp: scanToken_zero owed_def split: if_splits)
      next
        case nz: False
        have ty: "advanced ?l2 l' \<and> Type tok \<notin> {INDENT, DEDENT, EOF}"
          using scanToken_nonzero [OF rc nz st] by simp
        then have "advanced l l'"
          using a2 by (auto intro: advanced_trans)
        then show ?thesis
          using same [of l'] ty "1.prems"(2,3) by simp
      qed
    qed
  qed
qed

text \<open>
  From a lexer with a non-empty indentation stack and no negative count of pending DEDENTs,
  \<open>AllTokens\<close> returns, the last token is EOF, and, unless the indentation error is among the
  tokens, there are as many DEDENTs as INDENTs and DEDENTs owed at the start.
\<close>

lemma AllTokens_owed:
  "indentStack l \<noteq> [] \<Longrightarrow> 0 \<le> pendingDedents l \<Longrightarrow>
   \<exists>ts. AllTokens u l = Some ts \<and> ts \<noteq> [] \<and> Type (last ts) = EOF
        \<and> ((\<forall>t\<in>set ts. \<not> is_indentation_error t) \<longrightarrow>
             int (count_type DEDENT ts) = int (count_type INDENT ts) + owed l)"
proof (induction u l rule: AllTokens.induct)
  case (1 u l)
  obtain tok l' where nt: "NextToken u l = Some (tok, l')"
    using NextToken_no_panic [OF "1.prems"(1), of u] by (cases "NextToken u l") auto
  note step = NextToken_owed [OF nt "1.prems"]
  show ?case
  proof (cases "Type tok = EOF")
    case True
    then have "AllTokens u l = Some [tok]"
      using nt by (subst AllTokens.simps) simp
    then show ?thesis
      using True step by (auto simp: count_type_def)
  next
    case False
    obtain rest where rest: "AllTokens u l' = Some rest" "rest \<noteq> []" "Type (last rest) = EOF"
        "(\<forall>t\<in>set rest. \<not> is_indentation_error t) \<longrightarrow>
           int (count_type DEDENT rest) = int (count_type INDENT rest) + owed l'"
      using "1.IH" [OF nt refl False] step by auto
    have "AllTokens u l = Some (tok # rest)"
      using nt False rest(1) by (subst AllTokens.simps) simp
    then show ?thesis
      using rest(2-4) step by (auto simp: count_type_def)
  qed
qed

lemma bad_dedent_tokens:
  "AllTokens latin1 (NewLexer bad_dedent_source) =
     Some [\<lparr>Type = IF, Lexeme = ''if'', Line = 1, Column = 1\<rparr>,
           \<lparr>Type = IDENT, Lexeme = ''x'', Line = 1, Column = 4\<rparr>,
           \<lparr>Type = COLON, Lexeme = '':'', Line = 1, Column = 5\<rparr>,
           \<lparr>Type = NEWLINE, Lexeme = [CHR 0x0A], Line = 1, Column = 6\<rparr>,
           \<lparr>Type = INDENT, Lexeme = [], Line = 2, Column = 1\<rparr>,
           \<lparr>Type = IDENT, Lexeme = ''a'', Line = 2, Column = 9\<rparr>,
           \<lparr>Type = NEWLINE, Lexeme = [CHR 0x0A], Line = 2, Column = 10\<rparr>,
           \<lparr>Type = ILLEGAL, Lexeme = ''indentation error'', Line = 3, Column = 1\<rparr>,
           \<lparr>Type = IDENT, Lexeme = ''b'', Line = 3, Column = 5\<rparr>,
           \<lparr>Type = NEWLINE, Lexeme = [CHR 0x0A], Line = 3, Column = 6\<rparr>,
           \<lparr>Type = EOF, Lexeme = [], Line = 4, Column = 1\<rparr>]"
  by code_simp

lemma open_block_tokens:
  "AllTokens latin1 (NewLexer open_block_source) =
     Some [\<lparr>Type = IF, Lexeme = ''if'', Line = 1, Column = 1\<rparr>,
           \<lparr>Type = IDENT, Lexeme = ''x'', Line = 1, Column = 4\<rparr>,
           \<lparr>Type = COLON, Lexeme = '':'', Line = 1, Column = 5\<rparr>,
           \<lparr>Type = NEWLINE, Lexeme = [CHR 0x0A], Line = 1, Column = 6\<rparr>,
           \<lparr>Type = INDENT, Lexeme = [], Line = 2, Column = 1\<rparr>,
           \<lparr>Type = IDENT, Lexeme = ''y'', Line = 2, Column = 5\<rparr>,
           \<lparr>Type = NEWLINE, Lexeme = [CHR 0x0A], Line = 2, Column = 6\<rparr>,
           \<lparr>Type = DEDENT, Lexeme = [], Line = 3, Column = 1\<rparr>,
           \<lparr>Type = EOF, Lexeme = [], Line = 3, Column = 1\<rparr>]"
  by code_simp

text \<open>
  C8, as stated, fails.  The source \<open>bad_dedent_source\<close> opens one block at column 8 and then
  has a line at column 4.  \<open>handleIndentation\<close> pops the level 8, finds that the level below
  is not 4 and returns the ILLEGAL token \<open>indentation error\<close> in place of a DEDENT; the popped
  level is gone, so the end of the input finds nothing to close.  The token stream, through
  EOF, has one INDENT and no DEDENT.
\<close>

theorem C8_bad_dedent_counterexample:
  "\<exists>ts. AllTokens latin1 (NewLexer bad_dedent_source) = Some ts
        \<and> map Type ts = [IF, IDENT, COLON, NEWLINE, INDENT, IDENT, NEWLINE, ILLEGAL, IDENT, NEWLINE, EOF]
        \<and> count_type INDENT ts = 1 \<and> count_type DEDENT ts = 0"
  by (simp add: bad_dedent_tokens count_type_def)

text \<open>
  C8, amended: for every source string the lexer returns a token stream that ends with EOF,
  and if the stream has no ILLEGAL token \<open>indentation error\<close> then it has exactly as many
  DEDENT tokens as INDENT tokens (the levels still open at the end of the input are closed
  by one DEDENT each before EOF).
\<close>

theorem C8_indent_dedent_balance:
  "\<exists>ts. AllTokens u (NewLexer s) = Some ts \<and> Type (last ts) = EOF
        \<and> ((\<forall>t\<in>set ts. \<not> is_indentation_error t) \<longrightarrow>
             count_type DEDENT ts = count_type INDENT ts)"
  using AllTokens_owed [of "NewLexer s" u] by (auto simp: NewLexer_def owed_def)

theorem C8_indent_dedent_balance_witness:
  "\<exists>ts. AllTokens latin1 (NewLexer open_block_source) = Some ts \<and> Type (last ts) = EOF
        \<and> (\<forall>t\<in>set ts. \<not> is_indentation_error t)
        \<and> count_type DEDENT ts = count_type INDENT ts \<and> count_type INDENT ts = 1"
  using C8_indent_dedent_balance [of latin1 open_block_source]
  by (simp add: open_block_tokens is_indentation_error_def count_type_def)
end
